theory Spec2Isabelle
  imports Complex_Main "HOL-Library.Sublist" "HOL-Library.AList"
begin

section \<open>Data model (types.ts)\<close>

text \<open>
  The string-literal unions of the source are datatypes; each comes with the function that
  gives back the JavaScript string, which is what the payloads and the drift detector see.
  Record fields carry a short prefix because two interfaces of the source share field names
  (\<open>id\<close>, \<open>timestamp\<close>, \<open>hash\<close>, ...).
\<close>

datatype ConsentScope = Specific | Categorical | Standing | Emergency | Delegated

datatype ConsentStatus =
  Authorised | Exceeded | Within_bounds | Revoked | Expired | Pending_ratification

datatype ConstraintType =
  Monetary_limit | Domain_restriction | Time_window | Approval_required
  | Recipient_restriction | Frequency_limit | Custom

datatype ViolationSeverity = Minor | Major | Critical

fun ConsentScope_str :: "ConsentScope \<Rightarrow> string" where
  "ConsentScope_str Specific = ''specific''"
| "ConsentScope_str Categorical = ''categorical''"
| "ConsentScope_str Standing = ''standing''"
| "ConsentScope_str Emergency = ''emergency''"
| "ConsentScope_str Delegated = ''delegated''"

fun ConsentStatus_str :: "ConsentStatus \<Rightarrow> string" where
  "ConsentStatus_str Authorised = ''authorised''"
| "ConsentStatus_str Exceeded = ''exceeded''"
| "ConsentStatus_str Within_bounds = ''within_bounds''"
| "ConsentStatus_str Revoked = ''revoked''"
| "ConsentStatus_str Expired = ''expired''"
| "ConsentStatus_str Pending_ratification = ''pending_ratification''"

fun ConstraintType_str :: "ConstraintType \<Rightarrow> string" where
  "ConstraintType_str Monetary_limit = ''monetary_limit''"
| "ConstraintType_str Domain_restriction = ''domain_restriction''"
| "ConstraintType_str Time_window = ''time_window''"
| "ConstraintType_str Approval_required = ''approval_required''"
| "ConstraintType_str Recipient_restriction = ''recipient_restriction''"
| "ConstraintType_str Frequency_limit = ''frequency_limit''"
| "ConstraintType_str Custom = ''custom''"

fun ViolationSeverity_str :: "ViolationSeverity \<Rightarrow> string" where
  "ViolationSeverity_str Minor = ''minor''"
| "ViolationSeverity_str Major = ''major''"
| "ViolationSeverity_str Critical = ''critical''"

text \<open>
  A value of an action's open parameter mapping (\<open>Record<string, unknown>\<close>). Finite
  numbers are rationals (arithmetic on them is exact in this model; IEEE rounding, the
  infinities and the sign of zero are not represented), \<open>JNaN\<close> is the number NaN, and
  \<open>JOther s\<close> is any object or array, kept as the text \<open>String(value)\<close> gives for it.
\<close>

datatype jsval =
  JUndefined | JNull | JBool bool | JNum rat | JNaN | JStr string | JOther string

record ConsentConstraint =
  c_type :: ConstraintType
  c_description :: string
  c_parameter :: string

record AuthorisationEntry =
  auth_id :: string
  auth_timestamp :: string
  auth_principal_id :: string
  auth_agent_id :: string
  auth_scope :: ConsentScope
  auth_description :: string
  auth_constraints :: "ConsentConstraint list"
  auth_expires_at :: "string option"
  auth_revoked :: bool
  auth_revoked_at :: "string option"
  auth_hash :: string
  auth_previous_hash :: string

record ActionRecord =
  act_id :: string
  act_timestamp :: string
  act_agent_id :: string
  act_authorisation_id :: string
  act_action_type :: string
  act_description :: string
  act_parameters :: "(string \<times> jsval) list"
  act_clearpath_trace_id :: "string option"
  act_hash :: string
  act_previous_hash :: string

text \<open>The argument types of \<open>authorise\<close> and \<open>recordAction\<close> (the \<open>Omit<...>\<close> types).\<close>

record AuthorisationFields =
  new_principal_id :: string
  new_agent_id :: string
  new_scope :: ConsentScope
  new_description :: string
  new_constraints :: "ConsentConstraint list"
  new_expires_at :: "string option"

record ActionFields =
  rec_agent_id :: string
  rec_authorisation_id :: string
  rec_action_type :: string
  rec_description :: string
  rec_parameters :: "(string \<times> jsval) list"
  rec_clearpath_trace_id :: "string option"

record ConsentViolation =
  v_constraint_type :: string
  v_expected :: string
  v_actual :: string
  v_severity :: ViolationSeverity
  v_description :: string

record ConsentMatch =
  m_authorisation_id :: string
  m_action_id :: string
  m_status :: ConsentStatus
  m_violations :: "ConsentViolation list"
  m_matched_at :: string

datatype ScopeCreepPatternType =
  Gradual_expansion | Constraint_erosion | Frequency_escalation | Domain_drift
  | Authority_inflation

record LedgerSnapshot =
  snap_schema :: string
  snap_principal_id :: string
  snap_authorisations :: "AuthorisationEntry list"
  snap_actions :: "ActionRecord list"

record VerifyResult =
  valid :: bool
  authorisations_checked :: nat
  actions_checked :: nat


section \<open>The JavaScript runtime\<close>

text \<open>
  The built-ins of Node.js that the repository calls and does not define. Every function
  of the model takes the runtime as its first argument, so each theorem holds for whatever
  these built-ins compute.
  \<^item> \<open>sha256\<close>: \<open>createHash('sha256').update(data, 'utf8').digest('hex')\<close>;
  \<^item> \<open>parseFloat\<close>: the global \<open>parseFloat\<close>, \<open>None\<close> where it returns NaN;
  \<^item> \<open>dateGetTime\<close>: \<open>new Date(s).getTime()\<close> in milliseconds, \<open>None\<close> where it is NaN;
  \<^item> \<open>numberToString\<close>: \<open>String(n)\<close> of a finite number;
  \<^item> \<open>sortStrings\<close>: \<open>Array.prototype.sort\<close> with the default comparison;
  \<^item> \<open>stringifyParameters\<close>: \<open>JSON.stringify(value, keys)\<close> with an array replacer;
  \<^item> \<open>stringifySnapshot\<close>: \<open>JSON.stringify(snapshot, null, 2)\<close>;
  \<^item> \<open>parseSnapshot\<close>: \<open>JSON.parse\<close>, \<open>None\<close> where it throws.
\<close>

record runtime =
  sha256 :: "string \<Rightarrow> string"
  parseFloat :: "string \<Rightarrow> rat option"
  dateGetTime :: "string \<Rightarrow> int option"
  numberToString :: "rat \<Rightarrow> string"
  sortStrings :: "string list \<Rightarrow> string list"
  stringifyParameters :: "(string \<times> jsval) list \<Rightarrow> string list \<Rightarrow> string"
  stringifySnapshot :: "LedgerSnapshot \<Rightarrow> string"
  parseSnapshot :: "string \<Rightarrow> LedgerSnapshot option"

section \<open>Hashing and payloads (hash.ts)\<close>

definition chainHash :: "runtime \<Rightarrow> string \<Rightarrow> string \<Rightarrow> string" where
  "chainHash rt previousHash payload = sha256 rt (previousHash @ payload)"

text \<open>\<open>Array.prototype.join\<close> on an array of strings.\<close>

fun join :: "string \<Rightarrow> string list \<Rightarrow> string" where
  "join sep [] = []"
| "join sep [x] = x"
| "join sep (x # y # ys) = x @ sep @ join sep (y # ys)"

definition newline :: string where
  "newline = [CHR 0x0A]"

definition String_bool :: "bool \<Rightarrow> string" where
  "String_bool b = (if b then ''true'' else ''false'')"

text \<open>\<open>x ?? ''\<close> on a \<open>string | null\<close>.\<close>

definition orEmpty :: "string option \<Rightarrow> string" where
  "orEmpty x = (case x of None \<Rightarrow> [] | Some s \<Rightarrow> s)"

definition authorisationPayload :: "AuthorisationEntry \<Rightarrow> string" where
  "authorisationPayload entry =
     (let constraintsStr =
            join ''|'' (map (\<lambda>c. ConstraintType_str (c_type c) @ '':'' @ c_description c
                                  @ '':'' @ c_parameter c)
                            (auth_constraints entry))
      in join newline
           [auth_id entry,
            auth_timestamp entry,
            auth_principal_id entry,
            auth_agent_id entry,
            ConsentScope_str (auth_scope entry),
            auth_description entry,
            constraintsStr,
            orEmpty (auth_expires_at entry),
            String_bool (auth_revoked entry),
            orEmpty (auth_revoked_at entry)])"

definition actionPayload :: "runtime \<Rightarrow> ActionRecord \<Rightarrow> string" where
  "actionPayload rt record =
     (let paramsStr = stringifyParameters rt (act_parameters record)
                        (sortStrings rt (map fst (act_parameters record)))
      in join newline
           [act_id record,
            act_timestamp record,
            act_agent_id record,
            act_authorisation_id record,
            act_action_type record,
            act_description record,
            paramsStr,
            orEmpty (act_clearpath_trace_id record)])"

section \<open>The ledger (consent-ledger.ts)\<close>

definition GENESIS :: string where
  "GENESIS = ''0''"

text \<open>
  The class \<open>ConsentLedger\<close>: the two chains and the two \<open>Map\<close> indexes. The entries are
  never mutated after they are stored (\<open>revoke\<close> stores a fresh object), so the chains and
  the indexes hold values.
\<close>

record ConsentLedger =
  principal_id :: string
  authorisations :: "AuthorisationEntry list"
  actions :: "ActionRecord list"
  authById :: "string \<rightharpoonup> AuthorisationEntry"
  actionById :: "string \<rightharpoonup> ActionRecord"

datatype error =
  AuthorisationNotFound string | ActionNotFound string | InvalidSchema | JsonSyntaxError

definition newConsentLedger :: "string \<Rightarrow> ConsentLedger" where
  "newConsentLedger p =
     \<lparr>principal_id = p, authorisations = [], actions = [],
      authById = Map.empty, actionById = Map.empty\<rparr>"

text \<open>
  \<open>authorise\<close>, \<open>revoke\<close> and \<open>recordAction\<close> read the random identifier
  (\<open>generateId()\<close>) and the clock (\<open>new Date().toISOString()\<close>); the model takes both
  readings as arguments and returns the result together with the updated ledger.
\<close>

definition authorise ::
  "runtime \<Rightarrow> string \<Rightarrow> string \<Rightarrow> AuthorisationFields \<Rightarrow> ConsentLedger
     \<Rightarrow> AuthorisationEntry \<times> ConsentLedger" where
  "authorise rt generatedId now entry L =
     (let previous_hash =
            (if length (authorisations L) = 0 then GENESIS
             else auth_hash (last (authorisations L)));
          full0 = \<lparr>auth_id = generatedId,
                   auth_timestamp = now,
                   auth_principal_id = new_principal_id entry,
                   auth_agent_id = new_agent_id entry,
                   auth_scope = new_scope entry,
                   auth_description = new_description entry,
                   auth_constraints = new_constraints entry,
                   auth_expires_at = new_expires_at entry,
                   auth_revoked = False,
                   auth_revoked_at = None,
                   auth_hash = [],
                   auth_previous_hash = previous_hash\<rparr>;
          full = full0\<lparr>auth_hash := chainHash rt previous_hash (authorisationPayload full0)\<rparr>
      in (full, L\<lparr>authorisations := authorisations L @ [full],
                   authById := (authById L)(generatedId \<mapsto> full)\<rparr>))"

text \<open>
  \<open>findIndex\<close> gives \<open>-1\<close> when nothing matches, and an assignment to index \<open>-1\<close> of a
  JavaScript array adds a property and leaves the elements alone.
\<close>

fun findIndex :: "('a \<Rightarrow> bool) \<Rightarrow> 'a list \<Rightarrow> int" where
  "findIndex P [] = -1"
| "findIndex P (x # xs) =
     (if P x then 0 else (let i = findIndex P xs in if i < 0 then -1 else i + 1))"

definition assignIndex :: "'a list \<Rightarrow> int \<Rightarrow> 'a \<Rightarrow> 'a list" where
  "assignIndex xs idx v = (if idx < 0 then xs else xs[nat idx := v])"

definition revoke ::
  "runtime \<Rightarrow> string \<Rightarrow> string \<Rightarrow> ConsentLedger
     \<Rightarrow> error + (AuthorisationEntry \<times> ConsentLedger)" where
  "revoke rt now authorisation_id L =
     (case authById L authorisation_id of
        None \<Rightarrow> Inl (AuthorisationNotFound authorisation_id)
      | Some auth \<Rightarrow>
          if auth_revoked auth then Inr (auth, L)
          else
            (let updated0 = auth\<lparr>auth_revoked := True, auth_revoked_at := Some now,
                                  auth_hash := []\<rparr>;
                 updated = updated0\<lparr>auth_hash :=
                             chainHash rt (auth_previous_hash auth)
                               (authorisationPayload updated0)\<rparr>;
                 idx = findIndex (\<lambda>a. auth_id a = authorisation_id) (authorisations L)
             in Inr (updated,
                     L\<lparr>authorisations := assignIndex (authorisations L) idx updated,
                       authById := (authById L)(authorisation_id \<mapsto> updated)\<rparr>)))"

definition getAuthorisation :: "ConsentLedger \<Rightarrow> string \<Rightarrow> AuthorisationEntry option" where
  "getAuthorisation L i = authById L i"

definition recordAction ::
  "runtime \<Rightarrow> string \<Rightarrow> string \<Rightarrow> ActionFields \<Rightarrow> ConsentLedger
     \<Rightarrow> ActionRecord \<times> ConsentLedger" where
  "recordAction rt generatedId now action L =
     (let previous_hash =
            (if length (actions L) = 0 then GENESIS
             else act_hash (last (actions L)));
          full0 = \<lparr>act_id = generatedId,
                   act_timestamp = now,
                   act_agent_id = rec_agent_id action,
                   act_authorisation_id = rec_authorisation_id action,
                   act_action_type = rec_action_type action,
                   act_description = rec_description action,
                   act_parameters = rec_parameters action,
                   act_clearpath_trace_id = rec_clearpath_trace_id action,
                   act_hash = [],
                   act_previous_hash = previous_hash\<rparr>;
          full = full0\<lparr>act_hash := chainHash rt previous_hash (actionPayload rt full0)\<rparr>
      in (full, L\<lparr>actions := actions L @ [full],
                   actionById := (actionById L)(generatedId \<mapsto> full)\<rparr>))"

text \<open>The two loops of \<open>verify\<close>, with the loop variables as arguments.\<close>

fun verifyAuthLoop :: "runtime \<Rightarrow> AuthorisationEntry list \<Rightarrow> bool \<Rightarrow> string \<Rightarrow> bool" where
  "verifyAuthLoop rt [] authOk prev = authOk"
| "verifyAuthLoop rt (a # rest) authOk prev =
     (let authOk1 = (if auth_previous_hash a \<noteq> prev then False else authOk);
          expected = chainHash rt (auth_previous_hash a) (authorisationPayload a);
          authOk2 = (if auth_hash a \<noteq> expected then False else authOk1)
      in verifyAuthLoop rt rest authOk2 (auth_hash a))"

fun verifyActionLoop :: "runtime \<Rightarrow> ActionRecord list \<Rightarrow> bool \<Rightarrow> string \<Rightarrow> bool" where
  "verifyActionLoop rt [] actionOk prevAction = actionOk"
| "verifyActionLoop rt (a # rest) actionOk prevAction =
     (let actionOk1 = (if act_previous_hash a \<noteq> prevAction then False else actionOk);
          expected = chainHash rt (act_previous_hash a) (actionPayload rt a);
          actionOk2 = (if act_hash a \<noteq> expected then False else actionOk1)
      in verifyActionLoop rt rest actionOk2 (act_hash a))"

definition verify :: "runtime \<Rightarrow> ConsentLedger \<Rightarrow> VerifyResult" where
  "verify rt L =
     (let authOk = verifyAuthLoop rt (authorisations L) True GENESIS;
          actionOk = verifyActionLoop rt (actions L) True GENESIS
      in \<lparr>valid = authOk \<and> actionOk,
          authorisations_checked = length (authorisations L),
          actions_checked = length (actions L)\<rparr>)"

text \<open>A call of one of the two appending operations, and a run of such calls on a ledger.\<close>

datatype ledger_call =
  Authorise string string AuthorisationFields
  | RecordAction string string ActionFields

fun apply_call :: "runtime \<Rightarrow> ConsentLedger \<Rightarrow> ledger_call \<Rightarrow> ConsentLedger" where
  "apply_call rt L (Authorise generatedId now entry) = snd (authorise rt generatedId now entry L)"
| "apply_call rt L (RecordAction generatedId now action) =
     snd (recordAction rt generatedId now action L)"

definition apply_calls :: "runtime \<Rightarrow> ConsentLedger \<Rightarrow> ledger_call list \<Rightarrow> ConsentLedger" where
  "apply_calls rt L calls = foldl (apply_call rt) L calls"

section \<open>Strings and values of JavaScript\<close>

text \<open>
  The string methods the source calls, written out on byte strings: \<open>includes\<close> is the
  substring test, \<open>split\<close> cuts at one separator character (and gives one empty piece on
  the empty string), \<open>trim\<close> strips the ASCII white space and \<open>toLowerCase\<close> folds the
  ASCII letters (the Unicode cases beyond ASCII are not represented).
\<close>

definition str_includes :: "string \<Rightarrow> string \<Rightarrow> bool" where
  "str_includes s t = sublist t s"

fun split :: "char \<Rightarrow> string \<Rightarrow> string list" where
  "split sep [] = [[]]"
| "split sep (x # xs) =
     (if x = sep then [] # split sep xs
      else (case split sep xs of [] \<Rightarrow> [[x]] | w # ws \<Rightarrow> (x # w) # ws))"

definition isWhiteSpace :: "char \<Rightarrow> bool" where
  "isWhiteSpace c =
     (c = CHR '' '' \<or> c = CHR 0x09 \<or> c = CHR 0x0A \<or> c = CHR 0x0B \<or> c = CHR 0x0C
      \<or> c = CHR 0x0D)"

definition trim :: "string \<Rightarrow> string" where
  "trim s = rev (dropWhile isWhiteSpace (rev (dropWhile isWhiteSpace s)))"

definition lowerChar :: "char \<Rightarrow> char" where
  "lowerChar c =
     (let n = (of_char c :: nat) in if 65 \<le> n \<and> n \<le> 90 then char_of (n + 32) else c)"

definition toLowerCase :: "string \<Rightarrow> string" where
  "toLowerCase s = map lowerChar s"

text \<open>Property access on the parameter object, and the operator \<open>??\<close>.\<close>

definition getParam :: "(string \<times> jsval) list \<Rightarrow> string \<Rightarrow> jsval" where
  "getParam parameters k = (case map_of parameters k of None \<Rightarrow> JUndefined | Some v \<Rightarrow> v)"

definition coalesce :: "jsval \<Rightarrow> jsval \<Rightarrow> jsval" where
  "coalesce a b = (if a = JUndefined \<or> a = JNull then b else a)"

definition String_js :: "runtime \<Rightarrow> jsval \<Rightarrow> string" where
  "String_js rt v =
     (case v of
        JUndefined \<Rightarrow> ''undefined''
      | JNull \<Rightarrow> ''null''
      | JBool b \<Rightarrow> String_bool b
      | JNum n \<Rightarrow> numberToString rt n
      | JNaN \<Rightarrow> ''NaN''
      | JStr s \<Rightarrow> s
      | JOther s \<Rightarrow> s)"

text \<open>The UTF-8 bytes of the three characters outside ASCII in the source's messages.\<close>

definition le_sign :: string where
  "le_sign = [CHR 0xE2, CHR 0x89, CHR 0xA4]"

definition en_dash :: string where
  "en_dash = [CHR 0xE2, CHR 0x80, CHR 0x93]"

definition right_arrow :: string where
  "right_arrow = [CHR 0xE2, CHR 0x86, CHR 0x92]"

section \<open>The consent matcher (matcher.ts)\<close>

definition parseNumber :: "runtime \<Rightarrow> jsval \<Rightarrow> rat option" where
  "parseNumber rt v =
     (case v of
        JNum n \<Rightarrow> Some n
      | JStr s \<Rightarrow> parseFloat rt s
      | _ \<Rightarrow> None)"

definition checkMonetaryLimit ::
  "runtime \<Rightarrow> ConsentConstraint \<Rightarrow> (string \<times> jsval) list \<Rightarrow> ConsentViolation option" where
  "checkMonetaryLimit rt constraint parameters =
     (case parseNumber rt (JStr (c_parameter constraint)) of
        None \<Rightarrow> None
      | Some limit \<Rightarrow>
          (case parseNumber rt
                  (coalesce (coalesce (getParam parameters ''amount'')
                                      (getParam parameters ''value''))
                            (getParam parameters ''cost'')) of
             None \<Rightarrow> None
           | Some amount \<Rightarrow>
               if amount > limit then
                 Some \<lparr>v_constraint_type = ''monetary_limit'',
                       v_expected = le_sign @ '' '' @ c_parameter constraint,
                       v_actual = numberToString rt amount,
                       v_severity = (if amount > limit * (3 / 2) then Critical else Major),
                       v_description = c_description constraint\<rparr>
               else None))"

definition checkDomainRestriction ::
  "runtime \<Rightarrow> ConsentConstraint \<Rightarrow> (string \<times> jsval) list \<Rightarrow> ConsentViolation option" where
  "checkDomainRestriction rt constraint parameters =
     (let allowed = map trim (split CHR '','' (toLowerCase (c_parameter constraint)));
          domain = toLowerCase (String_js rt
                     (coalesce (coalesce (coalesce (getParam parameters ''domain'')
                                                   (getParam parameters ''category''))
                                         (getParam parameters ''type''))
                               (JStr [])))
      in if domain = [] then None
         else
           (let inDomain = list_ex (\<lambda>d. str_includes domain d \<or> str_includes d domain) allowed
            in if \<not> inDomain then
                 Some \<lparr>v_constraint_type = ''domain_restriction'',
                       v_expected = join '', '' allowed,
                       v_actual = domain,
                       v_severity = Major,
                       v_description = c_description constraint\<rparr>
               else None))"

text \<open>
  \<open>checkTimeWindow\<close>: the destructuring \<open>[start, end]\<close> gives \<open>undefined\<close> past the end
  of the pieces, and a comparison with NaN is false.
\<close>

definition nthOrUndefined :: "'a list \<Rightarrow> nat \<Rightarrow> 'a option" where
  "nthOrUndefined xs i = (if i < length xs then Some (xs ! i) else None)"

definition falsyString :: "string option \<Rightarrow> bool" where
  "falsyString s = (case s of None \<Rightarrow> True | Some t \<Rightarrow> t = [])"

definition num_lt :: "int option \<Rightarrow> int option \<Rightarrow> bool" where
  "num_lt a b = (case (a, b) of (Some x, Some y) \<Rightarrow> x < y | _ \<Rightarrow> False)"

definition checkTimeWindow ::
  "runtime \<Rightarrow> ConsentConstraint \<Rightarrow> string \<Rightarrow> ConsentViolation option" where
  "checkTimeWindow rt constraint actionTimestamp =
     (let pieces = map trim (split CHR ''/'' (c_parameter constraint));
          start = nthOrUndefined pieces 0;
          end = nthOrUndefined pieces 1
      in if falsyString start \<or> falsyString end then None
         else
           (let t = dateGetTime rt actionTimestamp;
                startDate = dateGetTime rt (orEmpty start);
                endDate = dateGetTime rt (orEmpty end)
            in if startDate \<noteq> None \<and> endDate \<noteq> None then
                 (if num_lt t startDate \<or> num_lt endDate t then
                    Some \<lparr>v_constraint_type = ''time_window'',
                          v_expected = orEmpty start @ '' '' @ en_dash @ '' '' @ orEmpty end,
                          v_actual = actionTimestamp,
                          v_severity = Major,
                          v_description = c_description constraint\<rparr>
                  else None)
               else None))"

definition checkApprovalRequired ::
  "runtime \<Rightarrow> ConsentConstraint \<Rightarrow> (string \<times> jsval) list \<Rightarrow> ConsentViolation option" where
  "checkApprovalRequired rt constraint parameters =
     (let approved = coalesce (getParam parameters ''approval_obtained'')
                              (getParam parameters ''approved'')
      in if approved \<noteq> JBool True \<and> approved \<noteq> JStr ''true'' then
           Some \<lparr>v_constraint_type = ''approval_required'',
                 v_expected = ''approval obtained'',
                 v_actual = String_js rt (coalesce approved (JStr ''none'')),
                 v_severity = Major,
                 v_description = c_description constraint\<rparr>
         else None)"

definition checkRecipientRestriction ::
  "runtime \<Rightarrow> ConsentConstraint \<Rightarrow> (string \<times> jsval) list \<Rightarrow> ConsentViolation option" where
  "checkRecipientRestriction rt constraint parameters =
     (let allowed = map (\<lambda>s. toLowerCase (trim s)) (split CHR '','' (c_parameter constraint));
          recipient = toLowerCase (String_js rt
                        (coalesce (coalesce (coalesce (getParam parameters ''recipient'')
                                                      (getParam parameters ''to''))
                                            (getParam parameters ''payee''))
                                  (JStr [])))
      in if recipient = [] then None
         else
           (let allowedMatch = list_ex (\<lambda>r. str_includes recipient r \<or> str_includes r recipient) allowed
            in if \<not> allowedMatch then
                 Some \<lparr>v_constraint_type = ''recipient_restriction'',
                       v_expected = join '', '' allowed,
                       v_actual = recipient,
                       v_severity = Critical,
                       v_description = c_description constraint\<rparr>
               else None))"

text \<open>
  The third argument of \<open>checkFrequencyLimit\<close> is the object
  \<open>{actionCountForAuthInPeriod?, limit?}\<close>, here its two optional fields.
\<close>

definition checkFrequencyLimit ::
  "runtime \<Rightarrow> ConsentConstraint \<Rightarrow> (string \<times> jsval) list \<Rightarrow> rat option \<Rightarrow> rat option
     \<Rightarrow> ConsentViolation option" where
  "checkFrequencyLimit rt constraint parameters actionCountForAuthInPeriod ctxLimit =
     (let limit = (case ctxLimit of
                     Some l \<Rightarrow> Some l
                   | None \<Rightarrow> parseNumber rt (JStr (c_parameter constraint)));
          count = (case actionCountForAuthInPeriod of Some c \<Rightarrow> c | None \<Rightarrow> 0)
      in case limit of
           None \<Rightarrow> None
         | Some l \<Rightarrow>
             if count > l then
               Some \<lparr>v_constraint_type = ''frequency_limit'',
                     v_expected = le_sign @ '' '' @ numberToString rt l @ '' in period'',
                     v_actual = numberToString rt count,
                     v_severity = (if count > l * 2 then Critical else Major),
                     v_description = c_description constraint\<rparr>
             else None)"

definition checkCustom :: "ConsentConstraint \<Rightarrow> ActionRecord \<Rightarrow> ConsentViolation option" where
  "checkCustom constraint action =
     (let descMatch = str_includes (toLowerCase (act_description action))
                               (toLowerCase (c_description constraint))
      in if \<not> descMatch then
           Some \<lparr>v_constraint_type = ''custom'',
                 v_expected = c_description constraint,
                 v_actual = act_description action,
                 v_severity = Minor,
                 v_description = c_description constraint\<rparr>
         else None)"

record MatcherContext =
  actionCountByAuthorisationInPeriod :: "(string \<rightharpoonup> rat) option"
  frequencyLimitByConstraint :: "(string \<rightharpoonup> rat) option"

text \<open>The body of the \<open>switch\<close> in \<open>matchConsent\<close>, for one constraint.\<close>

definition evaluateConstraint ::
  "runtime \<Rightarrow> AuthorisationEntry \<Rightarrow> ActionRecord \<Rightarrow> MatcherContext option
     \<Rightarrow> ConsentConstraint \<Rightarrow> ConsentViolation option" where
  "evaluateConstraint rt authorisation action context constraint =
     (case c_type constraint of
        Monetary_limit \<Rightarrow> checkMonetaryLimit rt constraint (act_parameters action)
      | Domain_restriction \<Rightarrow> checkDomainRestriction rt constraint (act_parameters action)
      | Time_window \<Rightarrow> checkTimeWindow rt constraint (act_timestamp action)
      | Approval_required \<Rightarrow> checkApprovalRequired rt constraint (act_parameters action)
      | Recipient_restriction \<Rightarrow>
          checkRecipientRestriction rt constraint (act_parameters action)
      | Frequency_limit \<Rightarrow>
          (let count = (case context of
                          None \<Rightarrow> None
                        | Some ctx \<Rightarrow>
                            (case actionCountByAuthorisationInPeriod ctx of
                               None \<Rightarrow> None
                             | Some m \<Rightarrow> m (auth_id authorisation)));
               override = (case context of
                             None \<Rightarrow> None
                           | Some ctx \<Rightarrow>
                               (case frequencyLimitByConstraint ctx of
                                  None \<Rightarrow> None
                                | Some m \<Rightarrow> m (c_parameter constraint)));
               limit = (case override of
                          Some l \<Rightarrow> Some l
                        | None \<Rightarrow> parseNumber rt (JStr (c_parameter constraint)))
           in checkFrequencyLimit rt constraint (act_parameters action) count limit)
      | Custom \<Rightarrow> checkCustom constraint action)"

text \<open>The loop over the constraints, with the array \<open>violations\<close> as accumulator.\<close>

fun collectViolations ::
  "runtime \<Rightarrow> AuthorisationEntry \<Rightarrow> ActionRecord \<Rightarrow> MatcherContext option
     \<Rightarrow> ConsentConstraint list \<Rightarrow> ConsentViolation list \<Rightarrow> ConsentViolation list" where
  "collectViolations rt authorisation action context [] violations = violations"
| "collectViolations rt authorisation action context (constraint # rest) violations =
     (case evaluateConstraint rt authorisation action context constraint of
        None \<Rightarrow> collectViolations rt authorisation action context rest violations
      | Some v \<Rightarrow> collectViolations rt authorisation action context rest (violations @ [v]))"

definition template_null :: "string option \<Rightarrow> string" where
  "template_null x = (case x of None \<Rightarrow> ''null'' | Some s \<Rightarrow> s)"

text \<open>
  \<open>matchConsent\<close>: \<open>now\<close> is the reading of the clock in \<open>isoNow()\<close>. An
  \<open>expires_at\<close> that is the empty string is falsy, like \<open>null\<close>.
\<close>

definition matchConsent ::
  "runtime \<Rightarrow> string \<Rightarrow> AuthorisationEntry option \<Rightarrow> ActionRecord \<Rightarrow> MatcherContext option
     \<Rightarrow> ConsentMatch" where
  "matchConsent rt now authorisation action context =
     (let matched_at = now in
      case authorisation of
        None \<Rightarrow>
          \<lparr>m_authorisation_id = act_authorisation_id action,
           m_action_id = act_id action,
           m_status = Exceeded,
           m_violations =
             [\<lparr>v_constraint_type = ''authorisation'',
               v_expected = ''valid authorisation'',
               v_actual = ''none'',
               v_severity = Critical,
               v_description = ''Action has no matching authorisation''\<rparr>],
           m_matched_at = matched_at\<rparr>
      | Some auth \<Rightarrow>
          if auth_revoked auth then
            \<lparr>m_authorisation_id = auth_id auth,
             m_action_id = act_id action,
             m_status = Revoked,
             m_violations =
               [\<lparr>v_constraint_type = ''revocation'',
                 v_expected = ''active authorisation'',
                 v_actual = ''revoked at '' @ template_null (auth_revoked_at auth),
                 v_severity = Critical,
                 v_description = ''Action performed after authorisation was revoked''\<rparr>],
             m_matched_at = matched_at\<rparr>
          else if \<not> falsyString (auth_expires_at auth)
                  \<and> num_lt (dateGetTime rt (orEmpty (auth_expires_at auth)))
                           (dateGetTime rt (act_timestamp action)) then
            \<lparr>m_authorisation_id = auth_id auth,
             m_action_id = act_id action,
             m_status = Expired,
             m_violations =
               [\<lparr>v_constraint_type = ''expiry'',
                 v_expected = ''valid before '' @ orEmpty (auth_expires_at auth),
                 v_actual = act_timestamp action,
                 v_severity = Critical,
                 v_description = ''Action performed after authorisation expired''\<rparr>],
             m_matched_at = matched_at\<rparr>
          else if auth_scope auth = Emergency then
            \<lparr>m_authorisation_id = auth_id auth,
             m_action_id = act_id action,
             m_status = Pending_ratification,
             m_violations = [],
             m_matched_at = matched_at\<rparr>
          else
            (let violations = collectViolations rt auth action context (auth_constraints auth) [];
                 status = (if length violations > 0 then Exceeded else Within_bounds)
             in \<lparr>m_authorisation_id = auth_id auth,
                 m_action_id = act_id action,
                 m_status = status,
                 m_violations = violations,
                 m_matched_at = matched_at\<rparr>))"

section \<open>The facade's consent checks (consent-ledger.ts)\<close>

text \<open>
  \<open>buildMatcherContext\<close>: the loop computes \<open>bucket\<close> and \<open>key\<close> for every action
  and then stores the count under \<open>a.authorisation_id\<close>; the model keeps the two unused
  bindings. \<open>Math.floor(NaN / periodMs) * periodMs\<close> is NaN, here \<open>None\<close>.
\<close>

definition periodMs :: int where
  "periodMs = 24 * 60 * 60 * 1000"

definition bucketOf :: "runtime \<Rightarrow> string \<Rightarrow> int option" where
  "bucketOf rt timestamp =
     (case dateGetTime rt timestamp of
        None \<Rightarrow> None
      | Some t \<Rightarrow> Some ((t div periodMs) * periodMs))"

definition bucket_str :: "runtime \<Rightarrow> int option \<Rightarrow> string" where
  "bucket_str rt b = (case b of None \<Rightarrow> ''NaN'' | Some t \<Rightarrow> numberToString rt (of_int t))"

fun countLoop :: "runtime \<Rightarrow> ActionRecord list \<Rightarrow> (string \<rightharpoonup> rat) \<Rightarrow> (string \<rightharpoonup> rat)" where
  "countLoop rt [] counts = counts"
| "countLoop rt (a # rest) counts =
     (let bucket = bucketOf rt (act_timestamp a);
          key = act_authorisation_id a @ '':'' @ bucket_str rt bucket
      in countLoop rt rest
           (counts(act_authorisation_id a \<mapsto>
                     (case counts (act_authorisation_id a) of None \<Rightarrow> 0 | Some n \<Rightarrow> n) + 1)))"

definition buildMatcherContext :: "runtime \<Rightarrow> ConsentLedger \<Rightarrow> MatcherContext" where
  "buildMatcherContext rt L =
     \<lparr>actionCountByAuthorisationInPeriod = Some (countLoop rt (actions L) Map.empty),
      frequencyLimitByConstraint = None\<rparr>"

definition checkConsent ::
  "runtime \<Rightarrow> string \<Rightarrow> string \<Rightarrow> ConsentLedger \<Rightarrow> error + ConsentMatch" where
  "checkConsent rt now action_id L =
     (case actionById L action_id of
        None \<Rightarrow> Inl (ActionNotFound action_id)
      | Some action \<Rightarrow>
          (let auth = getAuthorisation L (act_authorisation_id action);
               context = buildMatcherContext rt L
           in Inr (matchConsent rt now auth action (Some context))))"

text \<open>
  \<open>checkAllActions\<close> reads the clock once for each action: \<open>clock k\<close> is the reading for
  the action at index \<open>k\<close>.
\<close>

definition checkAllActions :: "runtime \<Rightarrow> (nat \<Rightarrow> string) \<Rightarrow> ConsentLedger \<Rightarrow> ConsentMatch list" where
  "checkAllActions rt clock L =
     (let context = buildMatcherContext rt L
      in map (\<lambda>(k, action).
                (let auth = getAuthorisation L (act_authorisation_id action)
                 in matchConsent rt (clock k) auth action (Some context)))
             (enumerate 0 (actions L)))"

section \<open>The drift detector (drift-detector.ts)\<close>

definition MIN_DATA_POINTS :: nat where
  "MIN_DATA_POINTS = 3"

text \<open>
  A quotient of two finite numbers need not be finite: \<open>x / 0\<close> is an infinity or NaN.
  The detector compares such quotients and feeds one into \<open>Math.min\<close>, so the result of
  a division is a \<open>jsnumber\<close>, with the comparisons and the arithmetic of IEEE 754 on the
  special values (every comparison with NaN is false). The sign of zero is not represented:
  a zero divisor counts as \<open>+0\<close>.
\<close>

datatype jsnumber = Finite rat | PosInfinity | NegInfinity | NotANumber

definition js_div :: "rat \<Rightarrow> rat \<Rightarrow> jsnumber" where
  "js_div x y =
     (if y \<noteq> 0 then Finite (x / y)
      else if x > 0 then PosInfinity
      else if x < 0 then NegInfinity
      else NotANumber)"

fun js_le :: "jsnumber \<Rightarrow> jsnumber \<Rightarrow> bool" where
  "js_le NotANumber _ = False"
| "js_le _ NotANumber = False"
| "js_le NegInfinity _ = True"
| "js_le _ PosInfinity = True"
| "js_le (Finite a) (Finite b) = (a \<le> b)"
| "js_le (Finite a) NegInfinity = False"
| "js_le PosInfinity (Finite b) = False"
| "js_le PosInfinity NegInfinity = False"

text \<open>\<open>x >= c\<close>, \<open>x * c\<close> for a constant \<open>c > 0\<close>, \<open>c + x\<close> and \<open>Math.min(c, x)\<close>.\<close>

fun js_ge_const :: "jsnumber \<Rightarrow> rat \<Rightarrow> bool" where
  "js_ge_const (Finite a) c = (a \<ge> c)"
| "js_ge_const PosInfinity c = True"
| "js_ge_const NegInfinity c = False"
| "js_ge_const NotANumber c = False"

fun js_times_const :: "jsnumber \<Rightarrow> rat \<Rightarrow> jsnumber" where
  "js_times_const (Finite a) c = Finite (a * c)"
| "js_times_const x c = x"

fun js_plus_const :: "rat \<Rightarrow> jsnumber \<Rightarrow> jsnumber" where
  "js_plus_const c (Finite a) = Finite (c + a)"
| "js_plus_const c x = x"

fun js_min_const :: "rat \<Rightarrow> jsnumber \<Rightarrow> jsnumber" where
  "js_min_const c (Finite a) = Finite (min c a)"
| "js_min_const c PosInfinity = Finite c"
| "js_min_const c NegInfinity = NegInfinity"
| "js_min_const c NotANumber = NotANumber"

text \<open>
  The interface \<open>ScopeCreepPattern\<close> of types.ts: its severity is a number computed by
  \<open>Math.min\<close>.
\<close>

record ScopeCreepPattern =
  p_id :: string
  p_pattern_type :: ScopeCreepPatternType
  p_description :: string
  p_evidence_ids :: "string list"
  p_severity :: jsnumber
  p_first_detected :: string
  p_occurrences :: nat

definition getMonetaryValue :: "runtime \<Rightarrow> (string \<times> jsval) list \<Rightarrow> rat option" where
  "getMonetaryValue rt parameters =
     parseNumber rt (coalesce (coalesce (getParam parameters ''amount'')
                                        (getParam parameters ''value''))
                              (getParam parameters ''cost''))"

definition getLimitForAuth :: "runtime \<Rightarrow> AuthorisationEntry \<Rightarrow> ConstraintType \<Rightarrow> rat option" where
  "getLimitForAuth rt auth type =
     (case find (\<lambda>x. c_type x = type) (auth_constraints auth) of
        None \<Rightarrow> None
      | Some c \<Rightarrow> parseNumber rt (JStr (c_parameter c)))"

text \<open>The map \<open>byAuth\<close> that each detector builds first.\<close>

fun groupByAuth ::
  "ActionRecord list \<Rightarrow> (string \<rightharpoonup> ActionRecord list) \<Rightarrow> (string \<rightharpoonup> ActionRecord list)" where
  "groupByAuth [] byAuth = byAuth"
| "groupByAuth (a # rest) byAuth =
     (let list = (case byAuth (act_authorisation_id a) of None \<Rightarrow> [] | Some l \<Rightarrow> l) @ [a]
      in groupByAuth rest (byAuth(act_authorisation_id a \<mapsto> list)))"

definition getOrEmpty :: "('k \<rightharpoonup> 'a list) \<Rightarrow> 'k \<Rightarrow> 'a list" where
  "getOrEmpty m k = (case m k of None \<Rightarrow> [] | Some l \<Rightarrow> l)"

text \<open>
  \<open>Array.prototype.sort\<close> with a comparison function is a stable sort; \<open>notAfter x y\<close>
  says that the comparison of \<open>x\<close> with \<open>y\<close> is not positive (a NaN comparison counts as
  \<open>+0\<close>). The model is the stable insertion sort. Where the comparison is a consistent
  order every stable sort gives this result; where a timestamp does not parse the
  comparison is not consistent and the language leaves the order to the engine.
\<close>

fun insertSorted :: "('a \<Rightarrow> 'a \<Rightarrow> bool) \<Rightarrow> 'a \<Rightarrow> 'a list \<Rightarrow> 'a list" where
  "insertSorted notAfter x [] = [x]"
| "insertSorted notAfter x (y # ys) =
     (if notAfter x y then x # y # ys else y # insertSorted notAfter x ys)"

definition sortWith :: "('a \<Rightarrow> 'a \<Rightarrow> bool) \<Rightarrow> 'a list \<Rightarrow> 'a list" where
  "sortWith notAfter xs = foldr (insertSorted notAfter) xs []"

definition diffNotPositive :: "int option \<Rightarrow> int option \<Rightarrow> bool" where
  "diffNotPositive a b = (case (a, b) of (Some x, Some y) \<Rightarrow> x - y \<le> 0 | _ \<Rightarrow> True)"

definition byTimestamp :: "runtime \<Rightarrow> ActionRecord \<Rightarrow> ActionRecord \<Rightarrow> bool" where
  "byTimestamp rt x y =
     diffNotPositive (dateGetTime rt (act_timestamp x)) (dateGetTime rt (act_timestamp y))"

text \<open>
  The loops \<open>for (let i = 1; ...) if (xs[i] <= xs[i - 1]) { increasing = false; break; }\<close>,
  for a comparison \<open>le\<close>.
\<close>

fun increasing :: "('a \<Rightarrow> 'a \<Rightarrow> bool) \<Rightarrow> 'a list \<Rightarrow> bool" where
  "increasing le [] = True"
| "increasing le [x] = True"
| "increasing le (x # y # ys) = (if le y x then False else increasing le (y # ys))"

text \<open>
  \<open>detectGradualExpansion\<close>. The identifiers come from \<open>generateId()\<close>: \<open>gen k\<close> is the
  \<open>k\<close>-th identifier drawn during one run of \<open>detectScopeCreep\<close>, and \<open>n\<close> is the number
  drawn before the detector starts, so a pattern pushed onto \<open>patterns\<close> gets
  \<open>gen (n + length patterns)\<close>. An element of \<open>values\<close> is \<open>(id, ts, v)\<close>.
\<close>

definition monetaryValues :: "runtime \<Rightarrow> ActionRecord list \<Rightarrow> (string \<times> string \<times> rat) list" where
  "monetaryValues rt list =
     List.map_filter
       (\<lambda>a. case getMonetaryValue rt (act_parameters a) of
               None \<Rightarrow> None
             | Some v \<Rightarrow> Some (act_id a, act_timestamp a, v))
       list"

fun gradualExpansionLoop ::
  "runtime \<Rightarrow> (nat \<Rightarrow> string) \<Rightarrow> nat \<Rightarrow> (string \<rightharpoonup> ActionRecord list)
     \<Rightarrow> AuthorisationEntry list \<Rightarrow> ScopeCreepPattern list \<Rightarrow> ScopeCreepPattern list" where
  "gradualExpansionLoop rt gen n byAuth [] patterns = patterns"
| "gradualExpansionLoop rt gen n byAuth (auth # rest) patterns =
     (case getLimitForAuth rt auth Monetary_limit of
        None \<Rightarrow> gradualExpansionLoop rt gen n byAuth rest patterns
      | Some limit \<Rightarrow>
          (let list = sortWith (byTimestamp rt) (getOrEmpty byAuth (auth_id auth));
               values = monetaryValues rt list
           in if length values < MIN_DATA_POINTS
              then gradualExpansionLoop rt gen n byAuth rest patterns
              else
                (let ratios = map (\<lambda>(i, ts, v). js_div v limit) values
                 in if increasing js_le ratios \<and> js_ge_const (last ratios) (7 / 10)
                    then gradualExpansionLoop rt gen n byAuth rest
                           (patterns @
                            [\<lparr>p_id = gen (n + length patterns),
                              p_pattern_type = Gradual_expansion,
                              p_description =
                                ''Spending or value creeping toward limit (''
                                @ numberToString rt limit @ '') over ''
                                @ numberToString rt (of_nat (length values)) @ '' actions'',
                              p_evidence_ids = map (\<lambda>(i, ts, v). i) values,
                              p_severity =
                                js_min_const (9 / 10)
                                  (js_plus_const (3 / 10)
                                     (js_times_const (last ratios) (1 / 2))),
                              p_first_detected = (case hd values of (i, ts, v) \<Rightarrow> ts),
                              p_occurrences = length values\<rparr>])
                    else gradualExpansionLoop rt gen n byAuth rest patterns)))"

definition detectGradualExpansion ::
  "runtime \<Rightarrow> (nat \<Rightarrow> string) \<Rightarrow> nat \<Rightarrow> AuthorisationEntry list \<Rightarrow> ActionRecord list
     \<Rightarrow> ScopeCreepPattern list" where
  "detectGradualExpansion rt gen n auths acts =
     gradualExpansionLoop rt gen n (groupByAuth acts Map.empty) auths []"

text \<open>
  \<open>detectFrequencyEscalation\<close>. The \<open>Map\<close> of buckets keeps its keys in insertion order
  and is an association list; the key of an unparsable timestamp is NaN, here \<open>None\<close>.
\<close>

fun bucketLoop ::
  "runtime \<Rightarrow> ActionRecord list \<Rightarrow> (int option \<times> nat) list \<Rightarrow> (int option \<times> nat) list" where
  "bucketLoop rt [] buckets = buckets"
| "bucketLoop rt (a # rest) buckets =
     (let bucket = bucketOf rt (act_timestamp a)
      in bucketLoop rt rest
           (AList.update bucket
              ((case map_of buckets bucket of None \<Rightarrow> 0 | Some c \<Rightarrow> c) + 1) buckets))"

definition byBucket :: "(int option \<times> nat) \<Rightarrow> (int option \<times> nat) \<Rightarrow> bool" where
  "byBucket a b = diffNotPositive (fst a) (fst b)"

definition nat_le :: "nat \<Rightarrow> nat \<Rightarrow> bool" where
  "nat_le a b = (a \<le> b)"

fun frequencyEscalationLoop ::
  "runtime \<Rightarrow> (nat \<Rightarrow> string) \<Rightarrow> nat \<Rightarrow> (string \<rightharpoonup> ActionRecord list)
     \<Rightarrow> AuthorisationEntry list \<Rightarrow> ScopeCreepPattern list \<Rightarrow> ScopeCreepPattern list" where
  "frequencyEscalationLoop rt gen n byAuth [] patterns = patterns"
| "frequencyEscalationLoop rt gen n byAuth (auth # rest) patterns =
     (let list = sortWith (byTimestamp rt) (getOrEmpty byAuth (auth_id auth))
      in if length list < MIN_DATA_POINTS
         then frequencyEscalationLoop rt gen n byAuth rest patterns
         else
           (let buckets = bucketLoop rt list [];
                counts = map snd (sortWith byBucket buckets)
            in if length counts < MIN_DATA_POINTS
               then frequencyEscalationLoop rt gen n byAuth rest patterns
               else if increasing nat_le counts
               then frequencyEscalationLoop rt gen n byAuth rest
                      (patterns @
                       [\<lparr>p_id = gen (n + length patterns),
                         p_pattern_type = Frequency_escalation,
                         p_description =
                           ''Action frequency increasing over time (''
                           @ join ('' '' @ right_arrow @ '' '')
                               (map (\<lambda>c. numberToString rt (of_nat c)) counts)
                           @ '' per period)'',
                         p_evidence_ids =
                           map act_id (drop (length list - MIN_DATA_POINTS) list),
                         p_severity =
                           js_min_const (9 / 10)
                             (Finite (2 / 10 + of_nat (last counts) / 10)),
                         p_first_detected = act_timestamp (hd list),
                         p_occurrences = length counts\<rparr>])
               else frequencyEscalationLoop rt gen n byAuth rest patterns))"

definition detectFrequencyEscalation ::
  "runtime \<Rightarrow> (nat \<Rightarrow> string) \<Rightarrow> nat \<Rightarrow> AuthorisationEntry list \<Rightarrow> ActionRecord list
     \<Rightarrow> ScopeCreepPattern list" where
  "detectFrequencyEscalation rt gen n auths acts =
     frequencyEscalationLoop rt gen n (groupByAuth acts Map.empty) auths []"

text \<open>\<open>detectDomainDrift\<close>; an element of \<open>outside\<close> is \<open>(id, ts)\<close>.\<close>

fun outsideLoop ::
  "runtime \<Rightarrow> string list \<Rightarrow> ActionRecord list \<Rightarrow> (string \<times> string) list
     \<Rightarrow> (string \<times> string) list" where
  "outsideLoop rt allowed [] outside = outside"
| "outsideLoop rt allowed (a # rest) outside =
     (let domain = toLowerCase (String_js rt
                     (coalesce (coalesce (coalesce (getParam (act_parameters a) ''domain'')
                                                   (getParam (act_parameters a) ''category''))
                                         (getParam (act_parameters a) ''type''))
                               (JStr [])))
      in if domain = [] then outsideLoop rt allowed rest outside
         else
           (let inDomain = list_ex (\<lambda>d. str_includes domain d \<or> str_includes d domain) allowed
            in if \<not> inDomain
               then outsideLoop rt allowed rest (outside @ [(act_id a, act_timestamp a)])
               else outsideLoop rt allowed rest outside))"

fun domainDriftLoop ::
  "runtime \<Rightarrow> (nat \<Rightarrow> string) \<Rightarrow> nat \<Rightarrow> (string \<rightharpoonup> ActionRecord list)
     \<Rightarrow> AuthorisationEntry list \<Rightarrow> ScopeCreepPattern list \<Rightarrow> ScopeCreepPattern list" where
  "domainDriftLoop rt gen n byAuth [] patterns = patterns"
| "domainDriftLoop rt gen n byAuth (auth # rest) patterns =
     (case find (\<lambda>c. c_type c = Domain_restriction) (auth_constraints auth) of
        None \<Rightarrow> domainDriftLoop rt gen n byAuth rest patterns
      | Some domainConstraint \<Rightarrow>
          (let allowed = map trim (split CHR '','' (toLowerCase (c_parameter domainConstraint)));
               list = sortWith (byTimestamp rt) (getOrEmpty byAuth (auth_id auth))
           in if length list < MIN_DATA_POINTS
              then domainDriftLoop rt gen n byAuth rest patterns
              else
                (let outside = outsideLoop rt allowed list []
                 in if length outside \<ge> MIN_DATA_POINTS
                    then domainDriftLoop rt gen n byAuth rest
                           (patterns @
                            [\<lparr>p_id = gen (n + length patterns),
                              p_pattern_type = Domain_drift,
                              p_description =
                                ''Actions increasingly outside authorised domain (''
                                @ join '', '' allowed @ '')'',
                              p_evidence_ids = map fst outside,
                              p_severity =
                                js_min_const (9 / 10)
                                  (Finite (3 / 10 + of_nat (length outside) * (1 / 10))),
                              p_first_detected = snd (hd outside),
                              p_occurrences = length outside\<rparr>])
                    else domainDriftLoop rt gen n byAuth rest patterns)))"

definition detectDomainDrift ::
  "runtime \<Rightarrow> (nat \<Rightarrow> string) \<Rightarrow> nat \<Rightarrow> AuthorisationEntry list \<Rightarrow> ActionRecord list
     \<Rightarrow> ScopeCreepPattern list" where
  "detectDomainDrift rt gen n auths acts =
     domainDriftLoop rt gen n (groupByAuth acts Map.empty) auths []"

text \<open>
  \<open>detectConstraintErosion\<close>. The two \<open>Map\<close>s are iterated, so they are association
  lists in insertion order; an entry of \<open>violationsByAction\<close> is an action id with its
  \<open>{constraint_type, severity}\<close> objects, an entry of \<open>byType\<close> a constraint type with
  its \<open>{actionId, severity}\<close> objects. \<open>clock k\<close> is the \<open>k\<close>-th reading of the clock.
\<close>

record ViolationSummary =
  vs_constraint_type :: string
  vs_severity :: string

fun byTypeInner ::
  "string \<Rightarrow> ViolationSummary list \<Rightarrow> (string \<times> (string \<times> string) list) list
     \<Rightarrow> (string \<times> (string \<times> string) list) list" where
  "byTypeInner actionId [] byType = byType"
| "byTypeInner actionId (v # rest) byType =
     (let list = (case map_of byType (vs_constraint_type v) of None \<Rightarrow> [] | Some l \<Rightarrow> l)
                 @ [(actionId, vs_severity v)]
      in byTypeInner actionId rest (AList.update (vs_constraint_type v) list byType))"

fun byTypeLoop ::
  "(string \<times> ViolationSummary list) list \<Rightarrow> (string \<times> (string \<times> string) list) list
     \<Rightarrow> (string \<times> (string \<times> string) list) list" where
  "byTypeLoop [] byType = byType"
| "byTypeLoop ((actionId, violations) # rest) byType =
     byTypeLoop rest (byTypeInner actionId violations byType)"

definition severityOrder :: "string \<Rightarrow> nat" where
  "severityOrder s =
     (if s = ''minor'' then 1 else if s = ''major'' then 2 else if s = ''critical'' then 3
      else 0)"

fun constraintErosionLoop ::
  "(nat \<Rightarrow> string) \<Rightarrow> (nat \<Rightarrow> string) \<Rightarrow> nat \<Rightarrow> (string \<times> (string \<times> string) list) list
     \<Rightarrow> ScopeCreepPattern list \<Rightarrow> ScopeCreepPattern list" where
  "constraintErosionLoop gen clock n [] patterns = patterns"
| "constraintErosionLoop gen clock n ((constraintType, list) # rest) patterns =
     (if length list < MIN_DATA_POINTS then constraintErosionLoop gen clock n rest patterns
      else
        (let ordered = map (\<lambda>x. severityOrder (snd x)) list
         in if increasing nat_le ordered
            then constraintErosionLoop gen clock n rest
                   (patterns @
                    [\<lparr>p_id = gen (n + length patterns),
                      p_pattern_type = Constraint_erosion,
                      p_description =
                        ''Repeated violations of '' @ constraintType
                        @ '' with increasing severity'',
                      p_evidence_ids = map fst list,
                      p_severity = Finite (7 / 10),
                      p_first_detected = clock (length patterns),
                      p_occurrences = length list\<rparr>])
            else constraintErosionLoop gen clock n rest patterns))"

definition detectConstraintErosion ::
  "(nat \<Rightarrow> string) \<Rightarrow> (nat \<Rightarrow> string) \<Rightarrow> nat \<Rightarrow> AuthorisationEntry list \<Rightarrow> ActionRecord list
     \<Rightarrow> (string \<times> ViolationSummary list) list \<Rightarrow> ScopeCreepPattern list" where
  "detectConstraintErosion gen clock n auths acts violationsByAction =
     constraintErosionLoop gen clock n (byTypeLoop violationsByAction []) []"

definition detectAuthorityInflation ::
  "(nat \<Rightarrow> string) \<Rightarrow> nat \<Rightarrow> AuthorisationEntry list \<Rightarrow> ActionRecord list
     \<Rightarrow> (string \<rightharpoonup> string) \<Rightarrow> ScopeCreepPattern list" where
  "detectAuthorityInflation gen n auths acts matchStatusByAction =
     (let inflated =
            filter (\<lambda>a. (case matchStatusByAction (act_id a) of None \<Rightarrow> [] | Some s \<Rightarrow> s)
                         \<in> set [''exceeded'', ''revoked'', ''expired''])
                   acts
      in if length inflated < MIN_DATA_POINTS then []
         else
           (let authIds = set (map auth_id auths);
                noAuth = filter (\<lambda>a. act_authorisation_id a \<notin> authIds) inflated
            in if length noAuth \<ge> MIN_DATA_POINTS then
                 [\<lparr>p_id = gen n,
                   p_pattern_type = Authority_inflation,
                   p_description =
                     ''Actions without valid authorisation (no auth or exceeded/revoked/expired)'',
                   p_evidence_ids = map act_id noAuth,
                   p_severity = Finite (8 / 10),
                   p_first_detected = act_timestamp (hd noAuth),
                   p_occurrences = length noAuth\<rparr>]
               else []))"

record DriftDetectorInput =
  in_authorisations :: "AuthorisationEntry list"
  in_actions :: "ActionRecord list"
  in_violationsByAction :: "(string \<times> ViolationSummary list) list option"
  in_matchStatusByAction :: "(string \<rightharpoonup> string) option"

definition detectScopeCreep ::
  "runtime \<Rightarrow> (nat \<Rightarrow> string) \<Rightarrow> (nat \<Rightarrow> string) \<Rightarrow> DriftDetectorInput \<Rightarrow> ScopeCreepPattern list" where
  "detectScopeCreep rt gen clock input =
     (let auths = in_authorisations input;
          acts = in_actions input;
          violationsByAction =
            (case in_violationsByAction input of None \<Rightarrow> [] | Some m \<Rightarrow> m);
          matchStatusByAction =
            (case in_matchStatusByAction input of None \<Rightarrow> Map.empty | Some m \<Rightarrow> m);
          all1 = detectGradualExpansion rt gen 0 auths acts;
          all2 = all1 @ detectFrequencyEscalation rt gen (length all1) auths acts;
          all3 = all2 @ detectDomainDrift rt gen (length all2) auths acts;
          all4 = all3 @ detectConstraintErosion gen clock (length all3) auths acts
                          violationsByAction;
          all5 = all4 @ detectAuthorityInflation gen (length all4) auths acts
                          matchStatusByAction
      in filter (\<lambda>p. length (p_evidence_ids p) \<ge> MIN_DATA_POINTS) all5)"

section \<open>The facade's drift detection and the snapshot (consent-ledger.ts)\<close>

text \<open>The loop of the method \<open>detectScopeCreep\<close> over the matches, filling the two maps.\<close>

fun matchMapsLoop ::
  "ConsentMatch list \<Rightarrow> (string \<times> ViolationSummary list) list \<Rightarrow> (string \<rightharpoonup> string)
     \<Rightarrow> (string \<times> ViolationSummary list) list \<times> (string \<rightharpoonup> string)" where
  "matchMapsLoop [] violationsByAction matchStatusByAction =
     (violationsByAction, matchStatusByAction)"
| "matchMapsLoop (m # rest) violationsByAction matchStatusByAction =
     matchMapsLoop rest
       (if length (m_violations m) > 0
        then AList.update (m_action_id m)
               (map (\<lambda>v. \<lparr>vs_constraint_type = v_constraint_type v,
                          vs_severity = ViolationSeverity_str (v_severity v)\<rparr>)
                    (m_violations m))
               violationsByAction
        else violationsByAction)
       (matchStatusByAction(m_action_id m \<mapsto> ConsentStatus_str (m_status m)))"

text \<open>
  The method \<open>detectScopeCreep\<close> of the ledger. The first \<open>length (actions L)\<close> readings
  of the clock go to the matches, the later ones to the detector.
\<close>

definition ledger_detectScopeCreep ::
  "runtime \<Rightarrow> (nat \<Rightarrow> string) \<Rightarrow> (nat \<Rightarrow> string) \<Rightarrow> ConsentLedger \<Rightarrow> ScopeCreepPattern list" where
  "ledger_detectScopeCreep rt gen clock L =
     (let matches = checkAllActions rt clock L;
          maps = matchMapsLoop matches [] Map.empty;
          input = \<lparr>in_authorisations = authorisations L,
                   in_actions = actions L,
                   in_violationsByAction = Some (fst maps),
                   in_matchStatusByAction = Some (snd maps)\<rparr>
      in detectScopeCreep rt gen (\<lambda>k. clock (length (actions L) + k)) input)"




section \<open>A runtime and inputs for the worked examples\<close>

text \<open>
  One runtime on which the examples are evaluated. Its \<open>sha256\<close> is the identity, an
  injective stand-in for the digest; \<open>parseFloat\<close> and \<open>dateGetTime\<close> are the
  built-ins restricted to the strings the examples use; \<open>numberToString\<close> prints the
  integral part in decimal; \<open>sortStrings\<close> orders by character code.
\<close>

fun decimalDigits :: "nat \<Rightarrow> string" where
  "decimalDigits n =
     (if n < 10 then [char_of (48 + n)]
      else decimalDigits (n div 10) @ [char_of (48 + n mod 10)])"

declare decimalDigits.simps [simp del]

fun codeUnitLe :: "string \<Rightarrow> string \<Rightarrow> bool" where
  "codeUnitLe [] ys = True"
| "codeUnitLe (x # xs) [] = False"
| "codeUnitLe (x # xs) (y # ys) =
     (if (of_char x :: nat) < of_char y then True
      else if (of_char y :: nat) < of_char x then False
      else codeUnitLe xs ys)"

definition example_render :: "jsval \<Rightarrow> string" where
  "example_render v =
     (case v of
        JUndefined \<Rightarrow> ''undefined''
      | JNull \<Rightarrow> ''null''
      | JBool b \<Rightarrow> String_bool b
      | JNum n \<Rightarrow> decimalDigits (nat \<lfloor>n\<rfloor>)
      | JNaN \<Rightarrow> ''null''
      | JStr s \<Rightarrow> s
      | JOther s \<Rightarrow> s)"

definition day1 :: string where "day1 = ''2024-01-01T00:00:00.000Z''"
definition day2 :: string where "day2 = ''2024-01-02T00:00:00.000Z''"
definition day3 :: string where "day3 = ''2024-01-03T00:00:00.000Z''"
definition day5 :: string where "day5 = ''2024-01-05T00:00:00.000Z''"

definition example_dates :: "(string \<times> int) list" where
  "example_dates =
     [(day1, 1704067200000), (day2, 1704153600000), (day3, 1704240000000),
      (day5, 1704412800000)]"

definition example_runtime :: runtime where
  "example_runtime =
     \<lparr>sha256 = (\<lambda>s. s),
      parseFloat = map_of [(''500'', 500), (''1'', 1)],
      dateGetTime = map_of example_dates,
      numberToString = (\<lambda>q. decimalDigits (nat \<lfloor>q\<rfloor>)),
      sortStrings = sortWith codeUnitLe,
      stringifyParameters =
        (\<lambda>parameters keys.
           ''{'' @ join '','' (map (\<lambda>k. k @ '':'' @ example_render (getParam parameters k)) keys)
           @ ''}''),
      stringifySnapshot = (\<lambda>s. []),
      parseSnapshot = (\<lambda>j. None)\<rparr>"

definition example_fields :: AuthorisationFields where
  "example_fields =
     \<lparr>new_principal_id = ''user-1'',
      new_agent_id = ''agent-1'',
      new_scope = Categorical,
      new_description = ''Book flights'',
      new_constraints =
        [\<lparr>c_type = Monetary_limit, c_description = ''Max 500'', c_parameter = ''500''\<rparr>],
      new_expires_at = None\<rparr>"

definition example_action :: "string \<Rightarrow> rat \<Rightarrow> ActionFields" where
  "example_action authorisation_id amount =
     \<lparr>rec_agent_id = ''agent-1'',
      rec_authorisation_id = authorisation_id,
      rec_action_type = ''pay'',
      rec_description = ''Pay'',
      rec_parameters = [(''amount'', JNum amount)],
      rec_clearpath_trace_id = None\<rparr>"

definition example_calls :: "ledger_call list" where
  "example_calls =
     [Authorise ''auth-1'' day1 example_fields,
      Authorise ''auth-2'' day1 example_fields,
      RecordAction ''act-1'' day2 (example_action ''auth-1'' 320)]"

definition example_auth :: AuthorisationEntry where
  "example_auth =
     fst (authorise example_runtime ''auth-1'' day1 example_fields (newConsentLedger ''user-1''))"

definition example_record :: "rat \<Rightarrow> ActionRecord" where
  "example_record amount =
     fst (recordAction example_runtime ''act-1'' day2 (example_action ''auth-1'' amount)
            (newConsentLedger ''user-1''))"

text \<open>
  A ledger whose only authorisation expired on the second day and was revoked on that day,
  with an action of the third day that is over the limit.
\<close>

definition example_revoked_ledger :: ConsentLedger where
  "example_revoked_ledger =
     (let L1 = snd (authorise example_runtime ''auth-1'' day1
                      (example_fields\<lparr>new_expires_at := Some day2\<rparr>)
                      (newConsentLedger ''user-1''));
          L2 = (case revoke example_runtime day2 ''auth-1'' L1 of
                  Inl e \<Rightarrow> L1
                | Inr (a, L) \<Rightarrow> L)
      in snd (recordAction example_runtime ''act-1'' day3 (example_action ''auth-1'' 1200) L2))"

text \<open>
  A ledger with a limit of one action per period, and two actions four days apart.
\<close>

definition example_frequency_ledger :: ConsentLedger where
  "example_frequency_ledger =
     apply_calls example_runtime (newConsentLedger ''user-1'')
       [Authorise ''auth-1'' day1
          (example_fields\<lparr>new_constraints :=
             [\<lparr>c_type = Frequency_limit, c_description = ''One per day'',
               c_parameter = ''1''\<rparr>]\<rparr>),
        RecordAction ''act-1'' day1 (example_action ''auth-1'' 100),
        RecordAction ''act-2'' day5 (example_action ''auth-1'' 100)]"

definition example_approval :: ConsentConstraint where
  "example_approval =
     \<lparr>c_type = Approval_required, c_description = ''Manager sign-off'', c_parameter = []\<rparr>"

definition example_ledger :: ConsentLedger where
  "example_ledger = apply_calls example_runtime (newConsentLedger ''user-1'') example_calls"










text \<open>
  The chain rule of the hash-chain primitive, for either chain: each element points at the
  digest before it and carries the digest recomputed from its own fields.
\<close>

fun chain_linked ::
  "('a \<Rightarrow> string) \<Rightarrow> ('a \<Rightarrow> string) \<Rightarrow> ('a \<Rightarrow> string) \<Rightarrow> string \<Rightarrow> 'a list \<Rightarrow> bool" where
  "chain_linked prevf hashf expf prev [] = True"
| "chain_linked prevf hashf expf prev (x # xs) =
     (prevf x = prev \<and> hashf x = expf x \<and> chain_linked prevf hashf expf (hashf x) xs)"

definition auth_expected :: "runtime \<Rightarrow> AuthorisationEntry \<Rightarrow> string" where
  "auth_expected rt a = chainHash rt (auth_previous_hash a) (authorisationPayload a)"

definition act_expected :: "runtime \<Rightarrow> ActionRecord \<Rightarrow> string" where
  "act_expected rt a = chainHash rt (act_previous_hash a) (actionPayload rt a)"

definition ledger_linked :: "runtime \<Rightarrow> ConsentLedger \<Rightarrow> bool" where
  "ledger_linked rt L =
     (chain_linked auth_previous_hash auth_hash (auth_expected rt) GENESIS (authorisations L)
      \<and> chain_linked act_previous_hash act_hash (act_expected rt) GENESIS (actions L))"

text \<open>The expiry test of \<open>matchConsent\<close>: the expiry parses to a time before the action's.\<close>

definition expiredFor :: "runtime \<Rightarrow> AuthorisationEntry \<Rightarrow> ActionRecord \<Rightarrow> bool" where
  "expiredFor rt auth action =
     (\<not> falsyString (auth_expires_at auth)
      \<and> num_lt (dateGetTime rt (orEmpty (auth_expires_at auth)))
               (dateGetTime rt (act_timestamp action)))"

text \<open>The entry that \<open>revoke\<close> stores for a non-revoked entry \<open>a\<close>.\<close>

definition revoked_entry :: "runtime \<Rightarrow> string \<Rightarrow> AuthorisationEntry \<Rightarrow> AuthorisationEntry" where
  "revoked_entry rt now a =
     a\<lparr>auth_revoked := True, auth_revoked_at := Some now,
       auth_hash := chainHash rt (auth_previous_hash a)
                      (authorisationPayload
                         (a\<lparr>auth_revoked := True, auth_revoked_at := Some now\<rparr>))\<rparr>"

text \<open>
  The three detectors that loop over the authorisations share one shape: an iteration
  either continues or pushes one pattern with a fresh identifier. \<open>pushLoop\<close> is that
  shape, and the three bodies say what one iteration pushes.
\<close>

fun pushLoop ::
  "(nat \<Rightarrow> string) \<Rightarrow> nat \<Rightarrow> ('x \<Rightarrow> (string \<Rightarrow> 'p) option) \<Rightarrow> 'x list \<Rightarrow> 'p list \<Rightarrow> 'p list" where
  "pushLoop gen n body [] patterns = patterns"
| "pushLoop gen n body (x # rest) patterns =
     pushLoop gen n body rest
       (case body x of
          None \<Rightarrow> patterns
        | Some mk \<Rightarrow> patterns @ [mk (gen (n + length patterns))])"

definition gradualExpansionBody ::
  "runtime \<Rightarrow> (string \<rightharpoonup> ActionRecord list) \<Rightarrow> AuthorisationEntry
     \<Rightarrow> (string \<Rightarrow> ScopeCreepPattern) option" where
  "gradualExpansionBody rt byAuth auth =
     (case getLimitForAuth rt auth Monetary_limit of
        None \<Rightarrow> None
      | Some limit \<Rightarrow>
          (let list = sortWith (byTimestamp rt) (getOrEmpty byAuth (auth_id auth));
               values = monetaryValues rt list
           in if length values < MIN_DATA_POINTS then None
              else
                (let ratios = map (\<lambda>(i, ts, v). js_div v limit) values
                 in if increasing js_le ratios \<and> js_ge_const (last ratios) (7 / 10)
                    then Some (\<lambda>newId.
                           \<lparr>p_id = newId,
                            p_pattern_type = Gradual_expansion,
                            p_description =
                              ''Spending or value creeping toward limit (''
                              @ numberToString rt limit @ '') over ''
                              @ numberToString rt (of_nat (length values)) @ '' actions'',
                            p_evidence_ids = map (\<lambda>(i, ts, v). i) values,
                            p_severity =
                              js_min_const (9 / 10)
                                (js_plus_const (3 / 10)
                                   (js_times_const (last ratios) (1 / 2))),
                            p_first_detected = (case hd values of (i, ts, v) \<Rightarrow> ts),
                            p_occurrences = length values\<rparr>)
                    else None)))"

definition frequencyEscalationBody ::
  "runtime \<Rightarrow> (string \<rightharpoonup> ActionRecord list) \<Rightarrow> AuthorisationEntry
     \<Rightarrow> (string \<Rightarrow> ScopeCreepPattern) option" where
  "frequencyEscalationBody rt byAuth auth =
     (let list = sortWith (byTimestamp rt) (getOrEmpty byAuth (auth_id auth))
      in if length list < MIN_DATA_POINTS then None
         else
           (let buckets = bucketLoop rt list [];
                counts = map snd (sortWith byBucket buckets)
            in if length counts < MIN_DATA_POINTS then None
               else if increasing nat_le counts
               then Some (\<lambda>newId.
                      \<lparr>p_id = newId,
                       p_pattern_type = Frequency_escalation,
                       p_description =
                         ''Action frequency increasing over time (''
                         @ join ('' '' @ right_arrow @ '' '')
                             (map (\<lambda>c. numberToString rt (of_nat c)) counts)
                         @ '' per period)'',
                       p_evidence_ids =
                         map act_id (drop (length list - MIN_DATA_POINTS) list),
                       p_severity =
                         js_min_const (9 / 10)
                           (Finite (2 / 10 + of_nat (last counts) / 10)),
                       p_first_detected = act_timestamp (hd list),
                       p_occurrences = length counts\<rparr>)
               else None))"

definition domainDriftBody ::
  "runtime \<Rightarrow> (string \<rightharpoonup> ActionRecord list) \<Rightarrow> AuthorisationEntry
     \<Rightarrow> (string \<Rightarrow> ScopeCreepPattern) option" where
  "domainDriftBody rt byAuth auth =
     (case find (\<lambda>c. c_type c = Domain_restriction) (auth_constraints auth) of
        None \<Rightarrow> None
      | Some domainConstraint \<Rightarrow>
          (let allowed = map trim (split CHR '','' (toLowerCase (c_parameter domainConstraint)));
               list = sortWith (byTimestamp rt) (getOrEmpty byAuth (auth_id auth))
           in if length list < MIN_DATA_POINTS then None
              else
                (let outside = outsideLoop rt allowed list []
                 in if length outside \<ge> MIN_DATA_POINTS
                    then Some (\<lambda>newId.
                           \<lparr>p_id = newId,
                            p_pattern_type = Domain_drift,
                            p_description =
                              ''Actions increasingly outside authorised domain (''
                              @ join '', '' allowed @ '')'',
                            p_evidence_ids = map fst outside,
                            p_severity =
                              js_min_const (9 / 10)
                                (Finite (3 / 10 + of_nat (length outside) * (1 / 10))),
                            p_first_detected = snd (hd outside),
                            p_occurrences = length outside\<rparr>)
                    else None)))"

text \<open>The actions that claim an authorisation id, in the order they were recorded.\<close>

definition actionsClaiming :: "string \<Rightarrow> ActionRecord list \<Rightarrow> ActionRecord list" where
  "actionsClaiming k acts = filter (\<lambda>a. act_authorisation_id a = k) acts"


text \<open>
  Where the evidence of a pattern comes from: a constraint-erosion pattern aside, it is
  either the actions of unknown authorisations or the actions of one authorisation that at
  least three actions claim.
\<close>

definition evidenceSupported :: "DriftDetectorInput \<Rightarrow> ScopeCreepPattern \<Rightarrow> bool" where
  "evidenceSupported input p =
     (p_pattern_type p = Constraint_erosion
      \<or> (p_pattern_type p = Authority_inflation
          \<and> set (p_evidence_ids p)
              \<subseteq> act_id ` {a \<in> set (in_actions input).
                             act_authorisation_id a \<notin> auth_id ` set (in_authorisations input)})
      \<or> (\<exists>auth \<in> set (in_authorisations input).
            set (p_evidence_ids p)
              \<subseteq> act_id ` set (actionsClaiming (auth_id auth) (in_actions input))
            \<and> MIN_DATA_POINTS \<le> length (actionsClaiming (auth_id auth) (in_actions input))))"

text \<open>
  What the matcher can report: a violation's severity is one of the three, and it is
  \<open>minor\<close> exactly for the constraint type \<open>custom\<close>. The two predicates below say so
  of every entry of the maps \<open>byType\<close> and \<open>violationsByAction\<close>.
\<close>

definition matcherSeverity :: "string \<Rightarrow> string \<Rightarrow> bool" where
  "matcherSeverity t s =
     ((s = ''minor'' \<or> s = ''major'' \<or> s = ''critical'') \<and> ((s = ''minor'') = (t = ''custom'')))"

definition matcherSeverities :: "(string \<times> (string \<times> string) list) list \<Rightarrow> bool" where
  "matcherSeverities byType =
     (\<forall>e \<in> set byType. \<forall>x \<in> set (snd e). matcherSeverity (fst e) (snd x))"

definition matcherViolations :: "(string \<times> ViolationSummary list) list \<Rightarrow> bool" where
  "matcherViolations violationsByAction =
     (\<forall>e \<in> set violationsByAction. \<forall>v \<in> set (snd e).
        matcherSeverity (vs_constraint_type v) (vs_severity v))"

section \<open>Chain integrity\<close>

lemma verifyAuthLoop_linked:
  "verifyAuthLoop rt xs ok prev =
     (ok \<and> chain_linked auth_previous_hash auth_hash (auth_expected rt) prev xs)"
  by (induction xs arbitrary: ok prev) (auto simp: Let_def auth_expected_def)

lemma verifyActionLoop_linked:
  "verifyActionLoop rt xs ok prev =
     (ok \<and> chain_linked act_previous_hash act_hash (act_expected rt) prev xs)"
  by (induction xs arbitrary: ok prev) (auto simp: Let_def act_expected_def)

lemma chain_linked_snoc:
  "chain_linked prevf hashf expf prev (xs @ [x]) =
     (chain_linked prevf hashf expf prev xs
      \<and> prevf x = (if xs = [] then prev else hashf (last xs))
      \<and> hashf x = expf x)"
  by (induction xs arbitrary: prev) auto

lemma chain_linked_nth:
  "chain_linked prevf hashf expf prev xs \<Longrightarrow> i < length xs \<Longrightarrow>
     hashf (xs ! i) = expf (xs ! i)
     \<and> prevf (xs ! i) = (if i = 0 then prev else hashf (xs ! (i - 1)))"
proof (induction xs arbitrary: prev i)
  case Nil
  then show ?case by simp
next
  case (Cons x xs)
  show ?case
  proof (cases i)
    case 0
    with Cons.prems show ?thesis by simp
  next
    case (Suc j)
    from Cons.prems(1) have tail: "chain_linked prevf hashf expf (hashf x) xs"
      using chain_linked.simps(2) [of prevf hashf expf prev x xs] by blast
    from Cons.prems(2) Suc have "j < length xs"
      by simp
    from Cons.IH [OF tail this] Suc show ?thesis
      by (cases j) simp_all
  qed
qed

lemma verify_linked:
  "verify rt L =
     \<lparr>valid = ledger_linked rt L,
      authorisations_checked = length (authorisations L),
      actions_checked = length (actions L)\<rparr>"
  by (simp add: verify_def Let_def verifyAuthLoop_linked verifyActionLoop_linked
        ledger_linked_def)

lemma authorise_linked:
  "ledger_linked rt L \<Longrightarrow> ledger_linked rt (snd (authorise rt i now e L))"
  by (simp add: ledger_linked_def authorise_def Let_def chain_linked_snoc auth_expected_def
        authorisationPayload_def)

lemma recordAction_linked:
  "ledger_linked rt L \<Longrightarrow> ledger_linked rt (snd (recordAction rt i now e L))"
  by (simp add: ledger_linked_def recordAction_def Let_def chain_linked_snoc act_expected_def
        actionPayload_def)

lemma apply_calls_linked:
  "ledger_linked rt L \<Longrightarrow> ledger_linked rt (apply_calls rt L calls)"
  unfolding apply_calls_def
proof (induction calls arbitrary: L)
  case Nil
  then show ?case by simp
next
  case (Cons c cs)
  have "ledger_linked rt (apply_call rt L c)"
    using Cons.prems by (cases c) (simp_all add: authorise_linked recordAction_linked)
  then show ?case using Cons.IH by simp
qed

lemma newConsentLedger_linked: "ledger_linked rt (newConsentLedger p)"
  by (simp add: ledger_linked_def newConsentLedger_def)

text \<open>
  C1. After any sequence of \<open>authorise\<close> and \<open>recordAction\<close> calls on a new ledger (the
  empty sequence included), every entry of either chain stores the chain hash of its own
  \<open>previous_hash\<close> and payload, the first entry of a chain points at the genesis sentinel
  and every later one at the hash of the entry before it, and \<open>verify\<close> returns
  \<open>valid = true\<close> with the two counts equal to the lengths of the chains.
\<close>

theorem C1_append_only_chains_verify:
  fixes rt :: runtime and calls :: "ledger_call list" and p :: string
  defines "L \<equiv> apply_calls rt (newConsentLedger p) calls"
  shows "(\<forall>i < length (authorisations L).
            auth_hash (authorisations L ! i)
              = chainHash rt (auth_previous_hash (authorisations L ! i))
                  (authorisationPayload (authorisations L ! i))
            \<and> auth_previous_hash (authorisations L ! i)
              = (if i = 0 then GENESIS else auth_hash (authorisations L ! (i - 1))))
       \<and> (\<forall>i < length (actions L).
            act_hash (actions L ! i)
              = chainHash rt (act_previous_hash (actions L ! i))
                  (actionPayload rt (actions L ! i))
            \<and> act_previous_hash (actions L ! i)
              = (if i = 0 then GENESIS else act_hash (actions L ! (i - 1))))
       \<and> verify rt L
           = \<lparr>valid = True,
              authorisations_checked = length (authorisations L),
              actions_checked = length (actions L)\<rparr>"
proof -
  have linked: "ledger_linked rt L"
    unfolding L_def by (rule apply_calls_linked [OF newConsentLedger_linked])
  then have auths:
    "chain_linked auth_previous_hash auth_hash (auth_expected rt) GENESIS (authorisations L)"
    and acts: "chain_linked act_previous_hash act_hash (act_expected rt) GENESIS (actions L)"
    by (simp_all add: ledger_linked_def)
  have "\<forall>i < length (authorisations L).
            auth_hash (authorisations L ! i)
              = chainHash rt (auth_previous_hash (authorisations L ! i))
                  (authorisationPayload (authorisations L ! i))
            \<and> auth_previous_hash (authorisations L ! i)
              = (if i = 0 then GENESIS else auth_hash (authorisations L ! (i - 1)))"
    using chain_linked_nth [OF auths] by (simp add: auth_expected_def)
  moreover have "\<forall>i < length (actions L).
            act_hash (actions L ! i)
              = chainHash rt (act_previous_hash (actions L ! i))
                  (actionPayload rt (actions L ! i))
            \<and> act_previous_hash (actions L ! i)
              = (if i = 0 then GENESIS else act_hash (actions L ! (i - 1)))"
    using chain_linked_nth [OF acts] by (simp add: act_expected_def)
  moreover have "verify rt L
           = \<lparr>valid = True,
              authorisations_checked = length (authorisations L),
              actions_checked = length (actions L)\<rparr>"
    using linked by (simp add: verify_linked)
  ultimately show ?thesis by blast
qed

theorem C1_append_only_chains_verify_witness:
  "length (authorisations (apply_calls example_runtime (newConsentLedger ''user-1'') example_calls)) = 2
   \<and> auth_previous_hash
       (authorisations (apply_calls example_runtime (newConsentLedger ''user-1'') example_calls) ! 0)
     = GENESIS
   \<and> auth_previous_hash
       (authorisations (apply_calls example_runtime (newConsentLedger ''user-1'') example_calls) ! 1)
     = auth_hash
         (authorisations (apply_calls example_runtime (newConsentLedger ''user-1'') example_calls) ! 0)
   \<and> valid (verify example_runtime
              (apply_calls example_runtime (newConsentLedger ''user-1'') example_calls))"
proof -
  let ?L = "apply_calls example_runtime (newConsentLedger ''user-1'') example_calls"
  have len: "length (authorisations ?L) = 2"
    by (simp add: example_calls_def apply_calls_def authorise_def recordAction_def
          newConsentLedger_def Let_def)
  note main = C1_append_only_chains_verify [of example_runtime "''user-1''" example_calls]
  from main have all:
    "\<forall>i < length (authorisations ?L).
        auth_previous_hash (authorisations ?L ! i)
          = (if i = 0 then GENESIS else auth_hash (authorisations ?L ! (i - 1)))"
    by blast
  from all len have "auth_previous_hash (authorisations ?L ! 0) = GENESIS"
    by simp
  moreover from len have
    "auth_previous_hash (authorisations ?L ! 1) = auth_hash (authorisations ?L ! 0)"
    using all [rule_format, of 1] by simp
  moreover from main have "valid (verify example_runtime ?L)"
    by simp
  ultimately show ?thesis using len by blast
qed

section \<open>The matcher\<close>

lemma collectViolations_map_filter:
  "collectViolations rt auth act ctx cs acc
     = acc @ List.map_filter (evaluateConstraint rt auth act ctx) cs"
  by (induction cs arbitrary: acc) (auto split: option.splits)

lemma matchConsent_constraints:
  assumes "\<not> auth_revoked auth" "\<not> expiredFor rt auth action" "auth_scope auth \<noteq> Emergency"
  shows "m_violations (matchConsent rt now (Some auth) action ctx)
           = List.map_filter (evaluateConstraint rt auth action ctx) (auth_constraints auth)"
    and "m_status (matchConsent rt now (Some auth) action ctx)
           = (if List.map_filter (evaluateConstraint rt auth action ctx) (auth_constraints auth) = []
              then Within_bounds else Exceeded)"
  using assms
  by (auto simp: matchConsent_def Let_def collectViolations_map_filter expiredFor_def)











text \<open>
  C4. When the referenced authorisation exists and is revoked, \<open>matchConsent\<close>, and so
  \<open>checkConsent\<close>, returns status \<open>revoked\<close> with exactly one violation, of
  constraint type \<open>revocation\<close> and severity \<open>critical\<close>, whatever the expiry, the scope
  and the constraints of the authorisation are.
\<close>

theorem C4_revoked_short_circuit:
  assumes "auth_revoked auth"
  shows "m_status (matchConsent rt now (Some auth) action ctx) = Revoked
       \<and> map (\<lambda>v. (v_constraint_type v, v_severity v))
             (m_violations (matchConsent rt now (Some auth) action ctx))
           = [(''revocation'', Critical)]
       \<and> (actionById L action_id = Some action
            \<and> authById L (act_authorisation_id action) = Some auth
          \<longrightarrow> (\<exists>m. checkConsent rt now action_id L = Inr m
                   \<and> m_status m = Revoked
                   \<and> map (\<lambda>v. (v_constraint_type v, v_severity v)) (m_violations m)
                       = [(''revocation'', Critical)]))"
  using assms by (simp add: matchConsent_def checkConsent_def getAuthorisation_def Let_def)

text \<open>
  C3. \<open>recordAction\<close> has no failing branch: it appends the new record to the action
  chain whatever \<open>authorisation_id\<close> it is given. When that id matches no authorisation,
  \<open>checkConsent\<close> on the new action returns status \<open>exceeded\<close> with exactly one
  violation, of constraint type \<open>authorisation\<close> and severity \<open>critical\<close>.
\<close>

theorem C3_recordAction_unknown_authorisation:
  fixes rt :: runtime and generatedId now :: string and action :: ActionFields
    and L :: ConsentLedger
  defines "r \<equiv> recordAction rt generatedId now action L"
  shows "actions (snd r) = actions L @ [fst r]
       \<and> act_authorisation_id (fst r) = rec_authorisation_id action
       \<and> (authById L (rec_authorisation_id action) = None
          \<longrightarrow> (\<exists>m. checkConsent rt now' (act_id (fst r)) (snd r) = Inr m
                   \<and> m_action_id m = act_id (fst r)
                   \<and> m_status m = Exceeded
                   \<and> map (\<lambda>v. (v_constraint_type v, v_severity v)) (m_violations m)
                       = [(''authorisation'', Critical)]))"
  unfolding r_def
  by (simp add: recordAction_def checkConsent_def getAuthorisation_def matchConsent_def Let_def)



theorem C4_revoked_short_circuit_witness:
  "\<exists>m. checkConsent example_runtime day5 ''act-1'' example_revoked_ledger = Inr m
        \<and> m_status m = Revoked
        \<and> map (\<lambda>v. (v_constraint_type v, v_severity v)) (m_violations m)
            = [(''revocation'', Critical)]"
proof -
  obtain auth where auth: "authById example_revoked_ledger ''auth-1'' = Some auth"
    and rev: "auth_revoked auth"
    by (simp add: example_revoked_ledger_def authorise_def revoke_def recordAction_def
          newConsentLedger_def Let_def)
  obtain action where action: "actionById example_revoked_ledger ''act-1'' = Some action"
    and aid: "act_authorisation_id action = ''auth-1''"
    by (simp add: example_revoked_ledger_def authorise_def revoke_def recordAction_def
          newConsentLedger_def Let_def example_action_def)
  from C4_revoked_short_circuit [OF rev, where rt = example_runtime and now = day5
      and action = action and ctx = None and L = example_revoked_ledger
      and action_id = "''act-1''"] action auth aid
  show ?thesis by simp
qed

theorem C3_recordAction_unknown_authorisation_witness:
  "\<exists>m. checkConsent example_runtime day3
          (act_id (fst (recordAction example_runtime ''act-9'' day2
                          (example_action ''nonexistent-id'' 10) (newConsentLedger ''user-1''))))
          (snd (recordAction example_runtime ''act-9'' day2
                  (example_action ''nonexistent-id'' 10) (newConsentLedger ''user-1''))) = Inr m
        \<and> m_status m = Exceeded
        \<and> map (\<lambda>v. (v_constraint_type v, v_severity v)) (m_violations m)
            = [(''authorisation'', Critical)]"
proof -
  have none: "authById (newConsentLedger ''user-1'')
                (rec_authorisation_id (example_action ''nonexistent-id'' 10)) = None"
    by (simp add: newConsentLedger_def)
  from C3_recordAction_unknown_authorisation [where L = "newConsentLedger ''user-1''"
      and action = "example_action ''nonexistent-id'' 10" and rt = example_runtime
      and generatedId = "''act-9''" and now = day2 and now' = day3] none
  show ?thesis by (elim conjE impE exE) (assumption, intro exI conjI, assumption+)
qed


section \<open>The constraint evaluators on missing inputs, and the frequency count\<close>

text \<open>
  C6 (as stated). The statement is that no constraint evaluator reports a violation when
  the fields it looks up are missing, \<open>approval_required\<close> included. On an action whose
  parameters hold only \<open>amount\<close>, the \<open>approval_required\<close> evaluator reports a major
  violation with actual value \<open>none\<close>.
\<close>

theorem C6_approval_missing_counterexample:
  "map_of (act_parameters (example_record 320)) ''approval_obtained'' = None
   \<and> map_of (act_parameters (example_record 320)) ''approved'' = None
   \<and> evaluateConstraint example_runtime example_auth (example_record 320) None example_approval
     = Some \<lparr>v_constraint_type = ''approval_required'',
             v_expected = ''approval obtained'',
             v_actual = ''none'',
             v_severity = Major,
             v_description = ''Manager sign-off''\<rparr>"
  by (simp add: evaluateConstraint_def example_approval_def checkApprovalRequired_def
        example_record_def recordAction_def example_action_def Let_def getParam_def
        coalesce_def String_js_def)

lemma getMonetaryValue_missing:
  "map_of ps ''amount'' = None \<Longrightarrow> map_of ps ''value'' = None \<Longrightarrow> map_of ps ''cost'' = None
     \<Longrightarrow> getMonetaryValue rt ps = None"
  by (simp add: getMonetaryValue_def getParam_def coalesce_def parseNumber_def)

lemma checkMonetaryLimit_not_applicable:
  "parseFloat rt (c_parameter c) = None \<or> getMonetaryValue rt ps = None
     \<Longrightarrow> checkMonetaryLimit rt c ps = None"
  by (auto simp: checkMonetaryLimit_def getMonetaryValue_def parseNumber_def
      split: option.splits)

lemma checkDomainRestriction_missing:
  "map_of ps ''domain'' = None \<Longrightarrow> map_of ps ''category'' = None \<Longrightarrow> map_of ps ''type'' = None
     \<Longrightarrow> checkDomainRestriction rt c ps = None"
  by (simp add: checkDomainRestriction_def getParam_def coalesce_def String_js_def
        toLowerCase_def Let_def)

lemma checkRecipientRestriction_missing:
  "map_of ps ''recipient'' = None \<Longrightarrow> map_of ps ''to'' = None \<Longrightarrow> map_of ps ''payee'' = None
     \<Longrightarrow> checkRecipientRestriction rt c ps = None"
  by (simp add: checkRecipientRestriction_def getParam_def coalesce_def String_js_def
        toLowerCase_def Let_def)

lemma checkTimeWindow_not_applicable:
  assumes "length (map trim (split CHR ''/'' (c_parameter c))) < 2
           \<or> map trim (split CHR ''/'' (c_parameter c)) ! 0 = []
           \<or> map trim (split CHR ''/'' (c_parameter c)) ! 1 = []
           \<or> dateGetTime rt (map trim (split CHR ''/'' (c_parameter c)) ! 0) = None
           \<or> dateGetTime rt (map trim (split CHR ''/'' (c_parameter c)) ! 1) = None
           \<or> dateGetTime rt ts = None"
  shows "checkTimeWindow rt c ts = None"
  using assms
  by (auto simp: checkTimeWindow_def Let_def nthOrUndefined_def falsyString_def orEmpty_def
        num_lt_def split: option.splits)

lemma checkFrequencyLimit_unparsable:
  "parseFloat rt (c_parameter c) = None \<Longrightarrow> checkFrequencyLimit rt c ps n None = None"
  by (simp add: checkFrequencyLimit_def parseNumber_def)

lemma checkFrequencyLimit_no_count:
  "parseFloat rt (c_parameter c) = Some l \<Longrightarrow> 0 \<le> l
     \<Longrightarrow> checkFrequencyLimit rt c ps None None = None"
  by (simp add: checkFrequencyLimit_def parseNumber_def)

lemma checkApprovalRequired_missing:
  "map_of ps ''approval_obtained'' = None \<Longrightarrow> map_of ps ''approved'' = None
     \<Longrightarrow> checkApprovalRequired rt c ps
         = Some \<lparr>v_constraint_type = ''approval_required'',
                 v_expected = ''approval obtained'',
                 v_actual = ''none'',
                 v_severity = Major,
                 v_description = c_description c\<rparr>"
  by (simp add: checkApprovalRequired_def getParam_def coalesce_def String_js_def Let_def)

text \<open>
  C6 (amended). For \<open>monetary_limit\<close>, \<open>domain_restriction\<close>, \<open>recipient_restriction\<close>,
  \<open>time_window\<close> and \<open>frequency_limit\<close>, missing fields and inputs that do not parse give
  no violation (a missing count is taken as 0, so a limit that is not negative gives none).
  For \<open>approval_required\<close> with neither \<open>approval_obtained\<close> nor \<open>approved\<close> present the
  evaluator reports a major violation whose actual value is \<open>none\<close>.
\<close>

theorem C6_missing_or_unparsable_inputs:
  "(parseFloat rt (c_parameter c) = None \<or> getMonetaryValue rt ps = None
      \<longrightarrow> checkMonetaryLimit rt c ps = None)
   \<and> (map_of ps ''amount'' = None \<and> map_of ps ''value'' = None \<and> map_of ps ''cost'' = None
      \<longrightarrow> checkMonetaryLimit rt c ps = None)
   \<and> (map_of ps ''domain'' = None \<and> map_of ps ''category'' = None \<and> map_of ps ''type'' = None
      \<longrightarrow> checkDomainRestriction rt c ps = None)
   \<and> (map_of ps ''recipient'' = None \<and> map_of ps ''to'' = None \<and> map_of ps ''payee'' = None
      \<longrightarrow> checkRecipientRestriction rt c ps = None)
   \<and> (length (map trim (split CHR ''/'' (c_parameter c))) < 2
       \<or> map trim (split CHR ''/'' (c_parameter c)) ! 0 = []
       \<or> map trim (split CHR ''/'' (c_parameter c)) ! 1 = []
       \<or> dateGetTime rt (map trim (split CHR ''/'' (c_parameter c)) ! 0) = None
       \<or> dateGetTime rt (map trim (split CHR ''/'' (c_parameter c)) ! 1) = None
       \<or> dateGetTime rt ts = None
      \<longrightarrow> checkTimeWindow rt c ts = None)
   \<and> (parseFloat rt (c_parameter c) = None \<longrightarrow> checkFrequencyLimit rt c ps n None = None)
   \<and> (parseFloat rt (c_parameter c) = Some l \<and> 0 \<le> l
      \<longrightarrow> checkFrequencyLimit rt c ps None None = None)
   \<and> (map_of ps ''approval_obtained'' = None \<and> map_of ps ''approved'' = None
      \<longrightarrow> checkApprovalRequired rt c ps
          = Some \<lparr>v_constraint_type = ''approval_required'',
                  v_expected = ''approval obtained'',
                  v_actual = ''none'',
                  v_severity = Major,
                  v_description = c_description c\<rparr>)"
  using getMonetaryValue_missing [of ps rt] checkMonetaryLimit_not_applicable [of rt c ps]
    checkDomainRestriction_missing [of ps rt c] checkRecipientRestriction_missing [of ps rt c]
    checkTimeWindow_not_applicable [of c rt ts] checkFrequencyLimit_unparsable [of rt c ps n]
    checkFrequencyLimit_no_count [of rt c l ps] checkApprovalRequired_missing [of ps rt c]
  by blast

theorem C6_missing_or_unparsable_inputs_witness:
  "checkMonetaryLimit example_runtime example_approval [(''note'', JStr ''x'')] = None
   \<and> checkDomainRestriction example_runtime example_approval [(''note'', JStr ''x'')] = None
   \<and> checkRecipientRestriction example_runtime example_approval [(''note'', JStr ''x'')] = None
   \<and> checkTimeWindow example_runtime example_approval day1 = None
   \<and> checkFrequencyLimit example_runtime example_approval [(''note'', JStr ''x'')] None None = None
   \<and> checkApprovalRequired example_runtime example_approval [(''note'', JStr ''x'')]
     = Some \<lparr>v_constraint_type = ''approval_required'',
             v_expected = ''approval obtained'',
             v_actual = ''none'',
             v_severity = Major,
             v_description = ''Manager sign-off''\<rparr>"
proof -
  have p: "parseFloat example_runtime (c_parameter example_approval) = None"
    by (simp add: example_runtime_def example_approval_def)
  have t: "length (map trim (split CHR ''/'' (c_parameter example_approval))) < 2"
    by (simp add: example_approval_def)
  have d: "c_description example_approval = ''Manager sign-off''"
    by (simp add: example_approval_def)
  from C6_missing_or_unparsable_inputs [where rt = example_runtime and c = example_approval
      and ps = "[(''note'', JStr ''x'')]" and ts = day1 and n = None and l = 0] p t d
  show ?thesis by simp
qed

lemma countLoop_counts:
  "countLoop rt acts m aid =
     (if filter (\<lambda>a. act_authorisation_id a = aid) acts = [] then m aid
      else Some ((case m aid of None \<Rightarrow> 0 | Some k \<Rightarrow> k)
                 + of_nat (length (filter (\<lambda>a. act_authorisation_id a = aid) acts))))"
  by (induction acts arbitrary: m) (auto simp: Let_def split: option.splits)

text \<open>
  What the facade supplies as the count for an authorisation: the number of all recorded
  actions that claim it, whatever their timestamps.
\<close>

lemma buildMatcherContext_counts_all_actions:
  "actionCountByAuthorisationInPeriod (buildMatcherContext rt L)
     = Some (\<lambda>aid. if filter (\<lambda>a. act_authorisation_id a = aid) (actions L) = [] then None
                   else Some (of_nat (length (filter (\<lambda>a. act_authorisation_id a = aid)
                                                (actions L)))))"
  by (auto simp: buildMatcherContext_def countLoop_counts)

text \<open>
  C7. The facade's count is not the count of the current 24-hour period. In the example
  ledger the authorisation allows one action per period and has one action on 1 January
  and one on 5 January 2024, which fall into different 24-hour buckets; the count supplied
  for the second action is 2, and \<open>checkConsent\<close> reports a \<open>frequency_limit\<close> violation
  for it.
\<close>

theorem C7_frequency_count_spans_all_periods:
  "bucketOf example_runtime day1 \<noteq> bucketOf example_runtime day5
   \<and> actionCountByAuthorisationInPeriod
       (buildMatcherContext example_runtime example_frequency_ledger)
     = Some [''auth-1'' \<mapsto> 2]
   \<and> (\<exists>m. checkConsent example_runtime day5 ''act-2'' example_frequency_ledger = Inr m
          \<and> m_status m = Exceeded
          \<and> map (\<lambda>v. (v_constraint_type v, v_actual v, v_severity v)) (m_violations m)
              = [(''frequency_limit'', ''2'', Major)])"
proof -
  let ?L = example_frequency_ledger
  let ?c = "\<lparr>c_type = Frequency_limit, c_description = ''One per day'', c_parameter = ''1''\<rparr>"
  have two: "numberToString example_runtime 2 = ''2''"
    unfolding example_runtime_def by (simp, code_simp)
  have buckets: "bucketOf example_runtime day1 \<noteq> bucketOf example_runtime day5"
    by (simp add: bucketOf_def example_runtime_def example_dates_def day1_def day2_def
          day3_def day5_def periodMs_def)
  have ctx: "buildMatcherContext example_runtime ?L
               = \<lparr>actionCountByAuthorisationInPeriod = Some [''auth-1'' \<mapsto> 2],
                  frequencyLimitByConstraint = None\<rparr>"
    by (simp add: buildMatcherContext_def example_frequency_ledger_def apply_calls_def
          authorise_def recordAction_def newConsentLedger_def example_action_def Let_def)
  obtain auth where auth: "authById ?L ''auth-1'' = Some auth"
    and a1: "\<not> auth_revoked auth" and a2: "auth_expires_at auth = None"
    and a3: "auth_scope auth \<noteq> Emergency" and a4: "auth_constraints auth = [?c]"
    and a5: "auth_id auth = ''auth-1''"
    by (simp add: example_frequency_ledger_def apply_calls_def authorise_def recordAction_def
          newConsentLedger_def example_fields_def Let_def)
  obtain action where action: "actionById ?L ''act-2'' = Some action"
    and b1: "act_authorisation_id action = ''auth-1''"
    by (simp add: example_frequency_ledger_def apply_calls_def authorise_def recordAction_def
          newConsentLedger_def example_action_def Let_def)
  have one: "parseFloat example_runtime ''1'' = Some 1"
    by (simp add: example_runtime_def)
  have ev: "evaluateConstraint example_runtime auth action
              (Some (buildMatcherContext example_runtime ?L)) ?c
            = Some \<lparr>v_constraint_type = ''frequency_limit'',
                    v_expected = le_sign @ '' '' @ numberToString example_runtime 1
                                 @ '' in period'',
                    v_actual = ''2'',
                    v_severity = Major,
                    v_description = ''One per day''\<rparr>"
    by (simp add: evaluateConstraint_def ctx a5 checkFrequencyLimit_def parseNumber_def one two)
  have a2': "\<not> expiredFor example_runtime auth action"
    by (simp add: expiredFor_def a2 falsyString_def)
  note mc = matchConsent_constraints [OF a1 a2' a3, of day5
      "Some (buildMatcherContext example_runtime ?L)"]
  have "\<exists>m. checkConsent example_runtime day5 ''act-2'' ?L = Inr m
          \<and> m_status m = Exceeded
          \<and> map (\<lambda>v. (v_constraint_type v, v_actual v, v_severity v)) (m_violations m)
              = [(''frequency_limit'', ''2'', Major)]"
    by (simp add: checkConsent_def getAuthorisation_def action b1 auth mc a4 ev)
  with buckets ctx show ?thesis by simp
qed

section \<open>Revocation in place\<close>

lemma chain_linked_append:
  "chain_linked prevf hashf expf prev (xs @ ys) =
     (chain_linked prevf hashf expf prev xs
      \<and> chain_linked prevf hashf expf (if xs = [] then prev else hashf (last xs)) ys)"
  by (induction xs arbitrary: prev) auto

lemma findIndex_first:
  "\<forall>x \<in> set xs. \<not> P x \<Longrightarrow> P a \<Longrightarrow> findIndex P (xs @ a # ys) = int (length xs)"
  by (induction xs) (auto simp: Let_def)

lemma assignIndex_middle:
  "assignIndex (xs @ a # ys) (int (length xs)) v = xs @ v # ys"
  by (simp add: assignIndex_def)

text \<open>The payload of an entry changes when it is revoked, whatever its fields are.\<close>

lemma authorisationPayload_revoked_differs:
  assumes nr: "\<not> auth_revoked a"
  shows "authorisationPayload (a\<lparr>auth_revoked := True, auth_revoked_at := Some now\<rparr>)
         \<noteq> authorisationPayload a"
proof -
  define P where "P = take (length (authorisationPayload a)
                             - length (''false'' @ newline @ orEmpty (auth_revoked_at a)))
                        (authorisationPayload a)"
  have 1: "authorisationPayload a = P @ ''false'' @ newline @ orEmpty (auth_revoked_at a)"
    unfolding P_def using nr by (simp add: authorisationPayload_def String_bool_def)
  have 2: "authorisationPayload (a\<lparr>auth_revoked := True, auth_revoked_at := Some now\<rparr>)
           = P @ ''true'' @ newline @ now"
    unfolding P_def using nr
    by (simp add: authorisationPayload_def String_bool_def orEmpty_def)
  show ?thesis
    unfolding 1 2 by simp
qed

lemma distinct_split:
  assumes ids: "distinct (map auth_id (xs @ a # ys))"
  shows "(\<forall>x \<in> set xs. auth_id x \<noteq> auth_id a) \<and> a \<notin> set ys"
  using ids by (auto simp: image_iff)

lemma authorisationPayload_hash_irrelevant:
  "authorisationPayload (a\<lparr>auth_hash := h\<rparr>) = authorisationPayload a"
  by (simp add: authorisationPayload_def)

lemma revoke_in_place:
  assumes idx: "authById L i = Some a" and nr: "\<not> auth_revoked a"
    and split: "authorisations L = xs @ a # ys"
    and first: "\<forall>x \<in> set xs. auth_id x \<noteq> i" and id: "auth_id a = i"
  shows "revoke rt now i L
           = Inr (revoked_entry rt now a,
                  L\<lparr>authorisations := xs @ revoked_entry rt now a # ys,
                    authById := (authById L)(i \<mapsto> revoked_entry rt now a)\<rparr>)"
proof -
  have "findIndex (\<lambda>b. auth_id b = i) (authorisations L) = int (length xs)"
    unfolding split using first id by (intro findIndex_first) auto
  then show ?thesis
    using idx nr
    by (simp add: revoke_def Let_def split assignIndex_middle revoked_entry_def
          authorisationPayload_def)
qed

lemma linked_after_revoke:
  assumes before: "chain_linked auth_previous_hash auth_hash (auth_expected rt) g (xs @ a # ys)"
  shows "chain_linked auth_previous_hash auth_hash (auth_expected rt) g
           (xs @ revoked_entry rt now a # ys)
         = (ys = [] \<or> auth_hash (revoked_entry rt now a) = auth_hash a)"
proof -
  let ?u = "revoked_entry rt now a"
  have exp: "auth_hash ?u = auth_expected rt ?u"
    by (simp add: revoked_entry_def auth_expected_def authorisationPayload_def)
  have prev: "auth_previous_hash ?u = auth_previous_hash a"
    by (simp add: revoked_entry_def)
  from before have xs: "chain_linked auth_previous_hash auth_hash (auth_expected rt) g xs"
    and a: "auth_previous_hash a = (if xs = [] then g else auth_hash (last xs))"
    and ys: "chain_linked auth_previous_hash auth_hash (auth_expected rt) (auth_hash a) ys"
    unfolding chain_linked_append chain_linked.simps by blast+
  have "chain_linked auth_previous_hash auth_hash (auth_expected rt) g (xs @ ?u # ys)
          = chain_linked auth_previous_hash auth_hash (auth_expected rt) (auth_hash ?u) ys"
    using xs a exp prev by (simp add: chain_linked_append)
  also have "\<dots> = (ys = [] \<or> auth_hash ?u = auth_hash a)"
  proof (cases ys)
    case Nil
    then show ?thesis by simp
  next
    case (Cons b bs)
    from ys have "auth_previous_hash b = auth_hash a"
      and "auth_hash b = auth_expected rt b"
      and "chain_linked auth_previous_hash auth_hash (auth_expected rt) (auth_hash b) bs"
      unfolding Cons chain_linked.simps by blast+
    then show ?thesis
      unfolding Cons chain_linked.simps by auto
  qed
  finally show ?thesis .
qed

text \<open>
  C2. On a ledger that verifies, whose authorisation ids are distinct and whose index holds
  the chain's entry for the id: \<open>revoke\<close> of a non-revoked authorisation that is the last
  element of the chain leaves \<open>verify\<close> valid; \<open>revoke\<close> of one that has a later entry
  makes \<open>verify\<close> invalid, provided the digest of the revoked payload differs from the
  digest of the old one (the successor still points at the old hash).
\<close>

theorem C2_revoke_then_verify:
  assumes ok: "valid (verify rt L)"
    and ids: "distinct (map auth_id (authorisations L))"
    and idx: "authById L i = Some a" and mem: "a \<in> set (authorisations L)"
    and id: "auth_id a = i" and nr: "\<not> auth_revoked a"
  shows "\<exists>a' L'. revoke rt now i L = Inr (a', L')
           \<and> auth_revoked a'
           \<and> (a = last (authorisations L) \<longrightarrow> valid (verify rt L'))
           \<and> (a \<noteq> last (authorisations L)
                \<and> chainHash rt (auth_previous_hash a)
                     (authorisationPayload (a\<lparr>auth_revoked := True, auth_revoked_at := Some now\<rparr>))
                   \<noteq> chainHash rt (auth_previous_hash a) (authorisationPayload a)
               \<longrightarrow> \<not> valid (verify rt L'))"
proof -
  from mem obtain xs ys where split: "authorisations L = xs @ a # ys"
    by (auto simp: in_set_conv_decomp)
  from ids split id have first: "\<forall>x \<in> set xs. auth_id x \<noteq> i"
    and later: "a \<notin> set ys"
    using distinct_split [of xs a ys] by simp_all
  let ?u = "revoked_entry rt now a"
  let ?L' = "L\<lparr>authorisations := xs @ ?u # ys, authById := (authById L)(i \<mapsto> ?u)\<rparr>"
  have rv: "revoke rt now i L = Inr (?u, ?L')"
    by (rule revoke_in_place [OF idx nr split first id])
  from ok have linked: "ledger_linked rt L"
    by (simp add: verify_linked)
  then have before:
    "chain_linked auth_previous_hash auth_hash (auth_expected rt) GENESIS (xs @ a # ys)"
    and acts: "chain_linked act_previous_hash act_hash (act_expected rt) GENESIS (actions L)"
    by (simp_all add: ledger_linked_def split)
  have after: "valid (verify rt ?L') = (ys = [] \<or> auth_hash ?u = auth_hash a)"
    using linked_after_revoke [OF before, of now] acts
    by (simp add: verify_linked ledger_linked_def)
  have last: "(a = last (authorisations L)) = (ys = [])"
    using later split by (cases ys rule: rev_cases) auto
  from before have old: "auth_hash a = chainHash rt (auth_previous_hash a) (authorisationPayload a)"
    unfolding chain_linked_append chain_linked.simps auth_expected_def by blast
  have new: "auth_hash ?u
               = chainHash rt (auth_previous_hash a)
                   (authorisationPayload (a\<lparr>auth_revoked := True, auth_revoked_at := Some now\<rparr>))"
    by (simp add: revoked_entry_def)
  have "auth_revoked ?u"
    by (simp add: revoked_entry_def)
  with rv after last old new show ?thesis
    by auto
qed

text \<open>
  With a digest that has no collisions the hypothesis on \<open>chainHash\<close> always holds: the
  two payloads differ.
\<close>

lemma revoke_changes_hash:
  "inj (sha256 rt) \<Longrightarrow> \<not> auth_revoked a \<Longrightarrow>
     chainHash rt (auth_previous_hash a)
       (authorisationPayload (a\<lparr>auth_revoked := True, auth_revoked_at := Some now\<rparr>))
     \<noteq> chainHash rt (auth_previous_hash a) (authorisationPayload a)"
  using authorisationPayload_revoked_differs [of a now]
  by (auto simp: chainHash_def dest: injD)

theorem C2_revoke_then_verify_witness:
  "(\<exists>a' L'. revoke example_runtime day3 ''auth-2'' example_ledger = Inr (a', L')
            \<and> valid (verify example_runtime L'))
   \<and> (\<exists>a' L'. revoke example_runtime day3 ''auth-1'' example_ledger = Inr (a', L')
            \<and> \<not> valid (verify example_runtime L'))"
proof -
  let ?L = example_ledger
  have ok: "valid (verify example_runtime ?L)"
    unfolding example_ledger_def
    by (simp add: verify_linked apply_calls_linked newConsentLedger_linked)
  obtain a1 a2 where auths: "authorisations ?L = [a1, a2]"
    and i1: "authById ?L ''auth-1'' = Some a1" and i2: "authById ?L ''auth-2'' = Some a2"
    and id1: "auth_id a1 = ''auth-1''" and id2: "auth_id a2 = ''auth-2''"
    and nr1: "\<not> auth_revoked a1" and nr2: "\<not> auth_revoked a2"
    by (simp add: example_ledger_def example_calls_def apply_calls_def authorise_def
          recordAction_def newConsentLedger_def Let_def)
  have ids: "distinct (map auth_id (authorisations ?L))"
    by (simp add: auths id1 id2)
  have inj: "inj (sha256 example_runtime)"
    by (simp add: example_runtime_def)
  from C2_revoke_then_verify [OF ok ids i2 _ id2 nr2, of day3] auths
  have "\<exists>a' L'. revoke example_runtime day3 ''auth-2'' ?L = Inr (a', L')
            \<and> valid (verify example_runtime L')"
    by auto
  moreover from C2_revoke_then_verify [OF ok ids i1 _ id1 nr1, of day3] auths
    revoke_changes_hash [OF inj nr1, of day3] id1 id2
  have "\<exists>a' L'. revoke example_runtime day3 ''auth-1'' ?L = Inr (a', L')
            \<and> \<not> valid (verify example_runtime L')"
    by auto
  ultimately show ?thesis by blast
qed

section \<open>Export and import\<close>



section \<open>The drift detector\<close>

lemma set_insertSorted: "set (insertSorted le x xs) = insert x (set xs)"
  by (induction xs) auto

lemma length_insertSorted: "length (insertSorted le x xs) = Suc (length xs)"
  by (induction xs) auto

lemma set_sortWith: "set (sortWith le xs) = set xs"
  by (induction xs) (auto simp: sortWith_def set_insertSorted)

lemma length_sortWith: "length (sortWith le xs) = length xs"
  by (induction xs) (auto simp: sortWith_def length_insertSorted)





lemma groupByAuth_lookup:
  "getOrEmpty (groupByAuth acts m) k = getOrEmpty m k @ actionsClaiming k acts"
  by (induction acts arbitrary: m) (auto simp: getOrEmpty_def actionsClaiming_def Let_def)

lemma groupByAuth_empty: "getOrEmpty (groupByAuth acts Map.empty) k = actionsClaiming k acts"
  by (simp add: groupByAuth_lookup) (simp add: getOrEmpty_def)

lemma gradualExpansionLoop_pushLoop:
  "gradualExpansionLoop rt gen n byAuth auths acc
     = pushLoop gen n (gradualExpansionBody rt byAuth) auths acc"
  by (induction auths arbitrary: acc)
     (auto simp: gradualExpansionBody_def Let_def split: option.splits)

lemma frequencyEscalationLoop_pushLoop:
  "frequencyEscalationLoop rt gen n byAuth auths acc
     = pushLoop gen n (frequencyEscalationBody rt byAuth) auths acc"
  by (induction auths arbitrary: acc)
     (auto simp: frequencyEscalationBody_def Let_def split: option.splits)

lemma domainDriftLoop_pushLoop:
  "domainDriftLoop rt gen n byAuth auths acc
     = pushLoop gen n (domainDriftBody rt byAuth) auths acc"
  by (induction auths arbitrary: acc)
     (auto simp: domainDriftBody_def Let_def split: option.splits)


lemma pushLoop_sound:
  "p \<in> set (pushLoop gen n body xs acc)
     \<Longrightarrow> p \<in> set acc \<or> (\<exists>x \<in> set xs. \<exists>mk i. body x = Some mk \<and> p = mk i)"
proof (induction xs arbitrary: acc)
  case Nil
  then show ?case by simp
next
  case (Cons x xs)
  show ?case
  proof (cases "body x")
    case None
    with Cons.prems have "p \<in> set (pushLoop gen n body xs acc)" by simp
    from Cons.IH [OF this] show ?thesis by auto
  next
    case (Some mk)
    with Cons.prems have "p \<in> set (pushLoop gen n body xs (acc @ [mk (gen (n + length acc))]))"
      by simp
    from Cons.IH [OF this] Some show ?thesis by auto
  qed
qed


lemma monetaryValues_ids:
  "map (\<lambda>(i, ts, v). i) (monetaryValues rt list)
     = map act_id (filter (\<lambda>a. getMonetaryValue rt (act_parameters a) \<noteq> None) list)"
  by (induction list) (auto simp: monetaryValues_def split: option.splits)

lemma monetaryValues_values:
  "map (\<lambda>(i, ts, v). v) (monetaryValues rt list)
     = List.map_filter (\<lambda>a. getMonetaryValue rt (act_parameters a)) list"
  by (induction list) (auto simp: monetaryValues_def split: option.splits)

lemma length_monetaryValues: "length (monetaryValues rt list) \<le> length list"
  by (induction list) (auto simp: monetaryValues_def split: option.splits)

lemma gradualExpansionBody_evidence:
  assumes "gradualExpansionBody rt (groupByAuth acts Map.empty) auth = Some mk"
  shows "p_pattern_type (mk i) = Gradual_expansion
       \<and> set (p_evidence_ids (mk i)) \<subseteq> act_id ` set (actionsClaiming (auth_id auth) acts)
       \<and> MIN_DATA_POINTS \<le> length (actionsClaiming (auth_id auth) acts)"
proof -
  let ?list = "sortWith (byTimestamp rt) (actionsClaiming (auth_id auth) acts)"
  from assms have mk: "p_pattern_type (mk i) = Gradual_expansion"
    and ev: "p_evidence_ids (mk i) = map (\<lambda>(i, ts, v). i) (monetaryValues rt ?list)"
    and len: "MIN_DATA_POINTS \<le> length (monetaryValues rt ?list)"
    by (auto simp: gradualExpansionBody_def groupByAuth_empty Let_def
        split: option.splits if_splits)
  have "set (p_evidence_ids (mk i)) \<subseteq> act_id ` set ?list"
    unfolding ev monetaryValues_ids by auto
  moreover have "length (monetaryValues rt ?list) \<le> length (actionsClaiming (auth_id auth) acts)"
    using length_monetaryValues [of rt ?list] by (simp add: length_sortWith)
  ultimately show ?thesis
    using mk len by (simp add: set_sortWith)
qed

lemma frequencyEscalationBody_evidence:
  assumes "frequencyEscalationBody rt (groupByAuth acts Map.empty) auth = Some mk"
  shows "p_pattern_type (mk i) = Frequency_escalation
       \<and> set (p_evidence_ids (mk i)) \<subseteq> act_id ` set (actionsClaiming (auth_id auth) acts)
       \<and> MIN_DATA_POINTS \<le> length (actionsClaiming (auth_id auth) acts)"
proof -
  let ?list = "sortWith (byTimestamp rt) (actionsClaiming (auth_id auth) acts)"
  from assms have mk: "p_pattern_type (mk i) = Frequency_escalation"
    and ev: "p_evidence_ids (mk i) = map act_id (drop (length ?list - MIN_DATA_POINTS) ?list)"
    and len: "MIN_DATA_POINTS \<le> length ?list"
    by (auto simp: frequencyEscalationBody_def groupByAuth_empty Let_def split: if_splits)
  have "set (p_evidence_ids (mk i)) \<subseteq> act_id ` set ?list"
    unfolding ev using set_drop_subset [of "length ?list - MIN_DATA_POINTS" ?list] by auto
  then show ?thesis
    using mk len by (simp add: set_sortWith length_sortWith)
qed

lemma outsideLoop_step:
  "outsideLoop rt allowed (a # rest) outside = outsideLoop rt allowed rest outside
   \<or> outsideLoop rt allowed (a # rest) outside
       = outsideLoop rt allowed rest (outside @ [(act_id a, act_timestamp a)])"
  by (simp add: Let_def)

lemma outsideLoop_ids:
  "fst ` set (outsideLoop rt allowed list outside) \<subseteq> fst ` set outside \<union> act_id ` set list"
proof (induction list arbitrary: outside)
  case Nil
  then show ?case by simp
next
  case (Cons a rest)
  from outsideLoop_step [of rt allowed a rest outside] show ?case
  proof
    assume "outsideLoop rt allowed (a # rest) outside = outsideLoop rt allowed rest outside"
    with Cons.IH [of outside] show ?thesis by auto
  next
    assume "outsideLoop rt allowed (a # rest) outside
              = outsideLoop rt allowed rest (outside @ [(act_id a, act_timestamp a)])"
    with Cons.IH [of "outside @ [(act_id a, act_timestamp a)]"] show ?thesis by auto
  qed
qed

lemma domainDriftBody_evidence:
  assumes "domainDriftBody rt (groupByAuth acts Map.empty) auth = Some mk"
  shows "p_pattern_type (mk i) = Domain_drift
       \<and> set (p_evidence_ids (mk i)) \<subseteq> act_id ` set (actionsClaiming (auth_id auth) acts)
       \<and> MIN_DATA_POINTS \<le> length (actionsClaiming (auth_id auth) acts)"
proof -
  let ?list = "sortWith (byTimestamp rt) (actionsClaiming (auth_id auth) acts)"
  from assms obtain allowed where mk: "p_pattern_type (mk i) = Domain_drift"
    and ev: "p_evidence_ids (mk i) = map fst (outsideLoop rt allowed ?list [])"
    and len: "MIN_DATA_POINTS \<le> length ?list"
    by (auto simp: domainDriftBody_def groupByAuth_empty Let_def split: option.splits if_splits)
  have "set (p_evidence_ids (mk i)) \<subseteq> act_id ` set ?list"
    unfolding ev using outsideLoop_ids [of rt allowed ?list "[]"] by auto
  then show ?thesis
    using mk len by (simp add: set_sortWith length_sortWith)
qed

lemma detectAuthorityInflation_evidence:
  assumes "p \<in> set (detectAuthorityInflation gen n auths acts status)"
  shows "p_pattern_type p = Authority_inflation
       \<and> set (p_evidence_ids p)
           \<subseteq> act_id ` {a \<in> set acts. act_authorisation_id a \<notin> auth_id ` set auths}"
  using assms by (auto simp: detectAuthorityInflation_def Let_def split: if_splits)

lemma constraintErosionLoop_type:
  "p \<in> set (constraintErosionLoop gen clock n byType acc)
     \<Longrightarrow> p \<in> set acc \<or> p_pattern_type p = Constraint_erosion"
proof (induction byType arbitrary: acc)
  case Nil
  then show ?case by simp
next
  case (Cons e rest)
  obtain t l where e: "e = (t, l)" by (cases e)
  show ?case
  proof (cases "length l < MIN_DATA_POINTS")
    case True
    with Cons.prems e have "p \<in> set (constraintErosionLoop gen clock n rest acc)"
      by simp
    from Cons.IH [OF this] show ?thesis .
  next
    case long: False
    show ?thesis
    proof (cases "increasing nat_le (map (\<lambda>x. severityOrder (snd x)) l)")
      case False
      with long Cons.prems e have "p \<in> set (constraintErosionLoop gen clock n rest acc)"
        by simp
      from Cons.IH [OF this] show ?thesis .
    next
      case True
      define q where "q = \<lparr>p_id = gen (n + length acc),
                              p_pattern_type = Constraint_erosion,
                              p_description =
                                ''Repeated violations of '' @ t @ '' with increasing severity'',
                              p_evidence_ids = map fst l,
                              p_severity = Finite (7 / 10),
                              p_first_detected = clock (length acc),
                              p_occurrences = length l\<rparr>"
      from True long Cons.prems e
      have "p \<in> set (constraintErosionLoop gen clock n rest (acc @ [q]))"
        by (simp add: q_def)
      from Cons.IH [OF this] show ?thesis
        by (auto simp: q_def)
    qed
  qed
qed

lemma detectGradualExpansion_supported:
  "p \<in> set (detectGradualExpansion rt gen n (in_authorisations input) (in_actions input))
     \<Longrightarrow> evidenceSupported input p"
  unfolding detectGradualExpansion_def gradualExpansionLoop_pushLoop
  using gradualExpansionBody_evidence [of rt "in_actions input"]
  by (fastforce simp: evidenceSupported_def dest!: pushLoop_sound)

lemma detectFrequencyEscalation_supported:
  "p \<in> set (detectFrequencyEscalation rt gen n (in_authorisations input) (in_actions input))
     \<Longrightarrow> evidenceSupported input p"
  unfolding detectFrequencyEscalation_def frequencyEscalationLoop_pushLoop
  using frequencyEscalationBody_evidence [of rt "in_actions input"]
  by (fastforce simp: evidenceSupported_def dest!: pushLoop_sound)

lemma detectDomainDrift_supported:
  "p \<in> set (detectDomainDrift rt gen n (in_authorisations input) (in_actions input))
     \<Longrightarrow> evidenceSupported input p"
  unfolding detectDomainDrift_def domainDriftLoop_pushLoop
  using domainDriftBody_evidence [of rt "in_actions input"]
  by (fastforce simp: evidenceSupported_def dest!: pushLoop_sound)

lemma detectConstraintErosion_supported:
  "p \<in> set (detectConstraintErosion gen clock n auths acts vba) \<Longrightarrow> evidenceSupported input p"
  using constraintErosionLoop_type [of p gen clock n _ "[]"]
  by (auto simp: detectConstraintErosion_def evidenceSupported_def)

lemma detectAuthorityInflation_supported:
  "p \<in> set (detectAuthorityInflation gen n (in_authorisations input) (in_actions input) status)
     \<Longrightarrow> evidenceSupported input p"
  using detectAuthorityInflation_evidence [of p gen n "in_authorisations input" "in_actions input"]
  by (auto simp: evidenceSupported_def)

text \<open>
  Every pattern of one run has at least three pieces of evidence and is a constraint-erosion
  pattern, or an authority-inflation pattern over actions of unknown authorisations, or has
  its evidence among the actions of one authorisation that at least three actions claim.
\<close>

lemma detectScopeCreep_supported:
  assumes "p \<in> set (detectScopeCreep rt gen clock input)"
  shows "MIN_DATA_POINTS \<le> length (p_evidence_ids p) \<and> evidenceSupported input p"
  using assms unfolding detectScopeCreep_def Let_def
  by (auto dest: detectGradualExpansion_supported detectFrequencyEscalation_supported
        detectDomainDrift_supported detectConstraintErosion_supported
        detectAuthorityInflation_supported)

lemma distinct_ids_eq:
  "distinct (map f xs) \<Longrightarrow> x \<in> set xs \<Longrightarrow> y \<in> set xs \<Longrightarrow> f x = f y \<Longrightarrow> x = y"
  by (meson distinct_map inj_onD)

text \<open>
  A pattern other than a constraint-erosion pattern, with its evidence accounted for as
  above, lists no action of an authorisation that fewer than three actions claim.
\<close>

lemma supported_evidence_excludes:
  assumes ids: "distinct (map act_id (in_actions input))"
    and auth: "auth \<in> set (in_authorisations input)"
    and few: "length (filter (\<lambda>b. act_authorisation_id b = auth_id auth) (in_actions input)) < 3"
    and a: "a \<in> set (in_actions input)" and claims: "act_authorisation_id a = auth_id auth"
    and sup: "evidenceSupported input p" and ne: "p_pattern_type p \<noteq> Constraint_erosion"
  shows "act_id a \<notin> set (p_evidence_ids p)"
proof
  assume mem: "act_id a \<in> set (p_evidence_ids p)"
  from sup ne consider
      (ai) "set (p_evidence_ids p)
              \<subseteq> act_id ` {a \<in> set (in_actions input).
                             act_authorisation_id a \<notin> auth_id ` set (in_authorisations input)}"
    | (one) auth' where "auth' \<in> set (in_authorisations input)"
        "set (p_evidence_ids p)
           \<subseteq> act_id ` set (actionsClaiming (auth_id auth') (in_actions input))"
        "MIN_DATA_POINTS \<le> length (actionsClaiming (auth_id auth') (in_actions input))"
    unfolding evidenceSupported_def by blast
  then show False
  proof cases
    case ai
    with mem obtain b where b: "b \<in> set (in_actions input)"
      and nb: "act_authorisation_id b \<notin> auth_id ` set (in_authorisations input)"
      and eq: "act_id a = act_id b"
      by auto
    from distinct_ids_eq [OF ids a b eq] have "a = b" .
    with nb claims auth show False by auto
  next
    case one
    with mem obtain b where b: "b \<in> set (in_actions input)"
      and cb: "act_authorisation_id b = auth_id auth'"
      and eq: "act_id a = act_id b"
      by (auto simp: actionsClaiming_def)
    from distinct_ids_eq [OF ids a b eq] have "a = b" .
    with cb claims have "auth_id auth' = auth_id auth" by simp
    with one(3) few show False
      by (simp add: actionsClaiming_def MIN_DATA_POINTS_def)
  qed
qed







lemma detectGradualExpansion_type:
  "p \<in> set (detectGradualExpansion rt gen n auths acts)
     \<Longrightarrow> p_pattern_type p = Gradual_expansion"
  unfolding detectGradualExpansion_def gradualExpansionLoop_pushLoop
  using gradualExpansionBody_evidence [of rt acts]
  by (fastforce dest!: pushLoop_sound)

lemma detectFrequencyEscalation_type:
  "p \<in> set (detectFrequencyEscalation rt gen n auths acts)
     \<Longrightarrow> p_pattern_type p = Frequency_escalation"
  unfolding detectFrequencyEscalation_def frequencyEscalationLoop_pushLoop
  using frequencyEscalationBody_evidence [of rt acts]
  by (fastforce dest!: pushLoop_sound)

lemma detectDomainDrift_type:
  "p \<in> set (detectDomainDrift rt gen n auths acts) \<Longrightarrow> p_pattern_type p = Domain_drift"
  unfolding detectDomainDrift_def domainDriftLoop_pushLoop
  using domainDriftBody_evidence [of rt acts]
  by (fastforce dest!: pushLoop_sound)


lemma detectAuthorityInflation_type:
  "p \<in> set (detectAuthorityInflation gen n auths acts status)
     \<Longrightarrow> p_pattern_type p = Authority_inflation"
  using detectAuthorityInflation_evidence [of p gen n auths acts status] by simp



text \<open>
  The violations that reach the constraint-erosion detector through the ledger come from
  the matcher. A violation that the matcher reports is minor exactly when its constraint
  type is \<open>custom\<close>.
\<close>

lemma evaluateConstraint_minor:
  "evaluateConstraint rt auth act ctx c = Some v
     \<Longrightarrow> (v_severity v = Minor) = (v_constraint_type v = ''custom'')"
  by (cases "c_type c")
     (auto simp: evaluateConstraint_def Let_def checkMonetaryLimit_def
        checkDomainRestriction_def checkTimeWindow_def checkApprovalRequired_def
        checkRecipientRestriction_def checkFrequencyLimit_def checkCustom_def
      split: option.splits if_splits)

lemma matchConsent_minor:
  "v \<in> set (m_violations (matchConsent rt now auth act ctx))
     \<Longrightarrow> (v_severity v = Minor) = (v_constraint_type v = ''custom'')"
proof (cases auth)
  case None
  then show "v \<in> set (m_violations (matchConsent rt now auth act ctx))
     \<Longrightarrow> (v_severity v = Minor) = (v_constraint_type v = ''custom'')"
    by (auto simp: matchConsent_def)
next
  case (Some a)
  assume v: "v \<in> set (m_violations (matchConsent rt now auth act ctx))"
  show "(v_severity v = Minor) = (v_constraint_type v = ''custom'')"
  proof (cases "auth_revoked a \<or> expiredFor rt a act \<or> auth_scope a = Emergency")
    case True
    with v Some show ?thesis
      by (auto simp: matchConsent_def expiredFor_def split: if_splits)
  next
    case False
    with v Some have "v \<in> set (List.map_filter (evaluateConstraint rt a act ctx)
                                  (auth_constraints a))"
      using matchConsent_constraints(1) [of a rt act now ctx] by simp
    then obtain c where "evaluateConstraint rt a act ctx c = Some v"
      by (auto simp: map_filter_def)
    from evaluateConstraint_minor [OF this] show ?thesis .
  qed
qed

lemma matcherSeverity_str:
  "matcherSeverity t (ViolationSeverity_str s) = ((s = Minor) = (t = ''custom''))"
  by (cases s) (simp_all add: matcherSeverity_def)

lemma set_update_subset:
  "set (AList.update k v al) \<subseteq> insert (k, v) (set al)"
  by (induction al) auto

lemma matchMapsLoop_severity:
  assumes "\<forall>m \<in> set ms. \<forall>v \<in> set (m_violations m).
             (v_severity v = Minor) = (v_constraint_type v = ''custom'')"
    and "matcherViolations vba"
  shows "matcherViolations (fst (matchMapsLoop ms vba st))"
  using assms
proof (induction ms arbitrary: vba st)
  case Nil
  then show ?case by simp
next
  case (Cons m rest)
  let ?new = "map (\<lambda>v. \<lparr>vs_constraint_type = v_constraint_type v,
                          vs_severity = ViolationSeverity_str (v_severity v)\<rparr>)
                  (m_violations m)"
  from Cons.prems(1)
  have new: "\<forall>v \<in> set ?new. matcherSeverity (vs_constraint_type v) (vs_severity v)"
    by (simp add: matcherSeverity_str)
  have "matcherViolations (AList.update (m_action_id m) ?new vba)"
    unfolding matcherViolations_def
  proof (intro ballI)
    fix e v
    assume e: "e \<in> set (AList.update (m_action_id m) ?new vba)" and v: "v \<in> set (snd e)"
    from e set_update_subset [of "m_action_id m" ?new vba]
    have "e = (m_action_id m, ?new) \<or> e \<in> set vba" by auto
    then show "matcherSeverity (vs_constraint_type v) (vs_severity v)"
    proof
      assume "e = (m_action_id m, ?new)"
      with v have "v \<in> set ?new" by simp
      with new show ?thesis by blast
    next
      assume "e \<in> set vba"
      with v Cons.prems(2) show ?thesis by (simp add: matcherViolations_def)
    qed
  qed
  with Cons.prems have "matcherViolations
      (if length (m_violations m) > 0 then AList.update (m_action_id m) ?new vba else vba)"
    by simp
  from Cons.IH [OF _ this] Cons.prems(1) show ?case by simp
qed

lemma byTypeInner_severity:
  assumes "matcherSeverities byType"
    and "\<forall>v \<in> set vs. matcherSeverity (vs_constraint_type v) (vs_severity v)"
  shows "matcherSeverities (byTypeInner actionId vs byType)"
  using assms
proof (induction vs arbitrary: byType)
  case Nil
  then show ?case by simp
next
  case (Cons v rest)
  let ?t = "vs_constraint_type v"
  let ?old = "case map_of byType ?t of None \<Rightarrow> [] | Some l \<Rightarrow> l"
  let ?list = "?old @ [(actionId, vs_severity v)]"
  have old: "\<forall>x \<in> set ?old. matcherSeverity ?t (snd x)"
  proof (cases "map_of byType ?t")
    case None
    then show ?thesis by simp
  next
    case (Some l)
    then have "(?t, l) \<in> set byType" by (rule map_of_SomeD)
    with Cons.prems(1) have "\<forall>x \<in> set l. matcherSeverity ?t (snd x)"
      unfolding matcherSeverities_def by fastforce
    with Some show ?thesis by simp
  qed
  with Cons.prems(2) have list: "\<forall>x \<in> set ?list. matcherSeverity ?t (snd x)"
    by auto
  have "matcherSeverities (AList.update ?t ?list byType)"
    unfolding matcherSeverities_def
  proof (intro ballI)
    fix e x
    assume e: "e \<in> set (AList.update ?t ?list byType)" and x: "x \<in> set (snd e)"
    from e set_update_subset [of ?t ?list byType]
    have "e = (?t, ?list) \<or> e \<in> set byType" by auto
    then show "matcherSeverity (fst e) (snd x)"
    proof
      assume "e = (?t, ?list)"
      with x have "x \<in> set ?list" "fst e = ?t" by simp_all
      with list show ?thesis by metis
    next
      assume "e \<in> set byType"
      with x Cons.prems(1) show ?thesis by (simp add: matcherSeverities_def)
    qed
  qed
  from Cons.IH [OF this] Cons.prems(2) show ?case by (simp add: Let_def)
qed

lemma byTypeLoop_severity:
  assumes "matcherViolations vba" and "matcherSeverities byType"
  shows "matcherSeverities (byTypeLoop vba byType)"
  using assms
proof (induction vba arbitrary: byType)
  case Nil
  then show ?case by simp
next
  case (Cons e rest)
  obtain k vs where e: "e = (k, vs)" by (cases e)
  from Cons.prems(1) e
  have vs: "\<forall>v \<in> set vs. matcherSeverity (vs_constraint_type v) (vs_severity v)"
    and rest: "matcherViolations rest"
    by (simp_all add: matcherViolations_def)
  from Cons.IH [OF rest byTypeInner_severity [OF Cons.prems(2) vs]] e
  show ?case by simp
qed

text \<open>
  Three severities of one constraint type that the matcher can report never rise: the
  first of three rising ones would be minor and the second major, and the matcher reports
  minor for the type \<open>custom\<close> only, and nothing else for it.
\<close>

lemma matcherSeverity_not_increasing:
  assumes "\<forall>x \<in> set l. matcherSeverity t (snd x)" and "MIN_DATA_POINTS \<le> length l"
  shows "\<not> increasing nat_le (map (\<lambda>x. severityOrder (snd x)) l)"
proof -
  from assms(2) obtain x y z rest where l: "l = x # y # z # rest"
    by (cases l; cases "tl l"; cases "tl (tl l)") (auto simp: MIN_DATA_POINTS_def)
  with assms(1) have "matcherSeverity t (snd x)" "matcherSeverity t (snd y)"
    "matcherSeverity t (snd z)"
    by simp_all
  then show ?thesis
    unfolding l by (auto simp: matcherSeverity_def severityOrder_def nat_le_def)
qed

lemma constraintErosionLoop_matcher:
  "matcherSeverities byType \<Longrightarrow> constraintErosionLoop gen clock n byType acc = acc"
proof (induction byType arbitrary: acc)
  case Nil
  then show ?case by simp
next
  case (Cons e rest)
  obtain t l where e: "e = (t, l)" by (cases e)
  from Cons.prems e have l: "\<forall>x \<in> set l. matcherSeverity t (snd x)"
    and rest: "matcherSeverities rest"
    by (simp_all add: matcherSeverities_def)
  show ?case
  proof (cases "length l < MIN_DATA_POINTS")
    case True
    with e Cons.IH [OF rest] show ?thesis by simp
  next
    case False
    then have "MIN_DATA_POINTS \<le> length l" by simp
    from matcherSeverity_not_increasing [OF l this] False e Cons.IH [OF rest]
    show ?thesis by simp
  qed
qed

lemma checkAllActions_minor:
  "m \<in> set (checkAllActions rt clock L) \<Longrightarrow> v \<in> set (m_violations m)
     \<Longrightarrow> (v_severity v = Minor) = (v_constraint_type v = ''custom'')"
  by (auto simp: checkAllActions_def Let_def dest: matchConsent_minor)

text \<open>
  With the violations the ledger's own matcher reports, the constraint-erosion detector
  finds nothing.
\<close>

lemma ledger_no_constraint_erosion:
  "detectConstraintErosion gen clock' n auths acts
     (fst (matchMapsLoop (checkAllActions rt clock L) [] Map.empty)) = []"
proof -
  have "matcherViolations (fst (matchMapsLoop (checkAllActions rt clock L) [] Map.empty))"
    by (rule matchMapsLoop_severity)
       (auto simp: matcherViolations_def dest: checkAllActions_minor)
  from byTypeLoop_severity [OF this, of "[]"]
  have "matcherSeverities
          (byTypeLoop (fst (matchMapsLoop (checkAllActions rt clock L) [] Map.empty)) [])"
    by (simp add: matcherSeverities_def)
  from constraintErosionLoop_matcher [OF this] show ?thesis
    by (simp add: detectConstraintErosion_def)
qed

text \<open>
  The method \<open>detectScopeCreep\<close> of the ledger never returns a constraint-erosion pattern.
\<close>

lemma ledger_detectScopeCreep_type:
  "p \<in> set (ledger_detectScopeCreep rt gen clock L)
     \<Longrightarrow> p_pattern_type p \<noteq> Constraint_erosion"
  unfolding ledger_detectScopeCreep_def detectScopeCreep_def Let_def
  by (auto simp: ledger_no_constraint_erosion
        dest: detectGradualExpansion_type detectFrequencyEscalation_type
          detectDomainDrift_type detectAuthorityInflation_type)

text \<open>
  So for a ledger with distinct action ids, no pattern that the method returns lists an
  action of an authorisation that fewer than three recorded actions claim.
\<close>

lemma ledger_detectScopeCreep_needs_three_actions:
  assumes ids: "distinct (map act_id (actions L))"
    and auth: "auth \<in> set (authorisations L)"
    and few: "length (filter (\<lambda>b. act_authorisation_id b = auth_id auth) (actions L)) < 3"
    and a: "a \<in> set (actions L)" and claims: "act_authorisation_id a = auth_id auth"
    and p: "p \<in> set (ledger_detectScopeCreep rt gen clock L)"
  shows "3 \<le> length (p_evidence_ids p) \<and> act_id a \<notin> set (p_evidence_ids p)"
proof -
  define input where "input =
    \<lparr>in_authorisations = authorisations L, in_actions = actions L,
     in_violationsByAction = Some (fst (matchMapsLoop (checkAllActions rt clock L) [] Map.empty)),
     in_matchStatusByAction =
       Some (snd (matchMapsLoop (checkAllActions rt clock L) [] Map.empty))\<rparr>"
  from p have "p \<in> set (detectScopeCreep rt gen (\<lambda>k. clock (length (actions L) + k)) input)"
    by (simp add: ledger_detectScopeCreep_def Let_def input_def)
  from detectScopeCreep_supported [OF this]
  have len: "3 \<le> length (p_evidence_ids p)" and sup: "evidenceSupported input p"
    by (simp_all add: MIN_DATA_POINTS_def)
  have ids': "distinct (map act_id (in_actions input))"
    and auth': "auth \<in> set (in_authorisations input)"
    and few': "length (filter (\<lambda>b. act_authorisation_id b = auth_id auth) (in_actions input)) < 3"
    and a': "a \<in> set (in_actions input)"
    using ids auth few a by (simp_all add: input_def)
  from supported_evidence_excludes [OF ids' auth' few' a' claims sup
         ledger_detectScopeCreep_type [OF p]] len
  show ?thesis by simp
qed

section \<open>The worked examples of the drift detector\<close>










end
